theory Spec2Isabelle
  imports
    Main
    "HOL-Library.Char_ord"
    "HOL-Library.List_Lexorder"
    "HOL-Library.Product_Lexorder"
    "HOL-Library.AList"
    "HOL-Library.Sublist"
begin

section \<open>Strings and paths\<close>

text \<open>
  Python strings are modelled as \<open>string\<close>; the order on strings is the lexicographic
  order by character code, which is how Python compares \<open>str\<close> values.
\<close>

definition startswith :: "string \<Rightarrow> string \<Rightarrow> bool" where
  "startswith s p \<longleftrightarrow> take (length p) s = p"

definition endswith :: "string \<Rightarrow> string \<Rightarrow> bool" where
  "endswith s x \<longleftrightarrow> length x \<le> length s \<and> drop (length s - length x) s = x"

text \<open>\<open>s.replace(old, '')\<close>: every non-overlapping occurrence, leftmost first.\<close>

function str_remove_all :: "string \<Rightarrow> string \<Rightarrow> string" where
  "str_remove_all old [] = []"
| "str_remove_all old (c # cs) =
     (if old \<noteq> [] \<and> startswith (c # cs) old
      then str_remove_all old (drop (length old) (c # cs))
      else c # str_remove_all old cs)"
  by pat_completeness auto
termination
  by (relation "measure (\<lambda>(old, s). length s)") auto

text \<open>\<open>posixpath.join(a, b)\<close>.\<close>

definition path_join :: "string \<Rightarrow> string \<Rightarrow> string" where
  "path_join a b =
     (if startswith b ''/'' then b
      else if a = [] \<or> endswith a ''/'' then a @ b
      else a @ ''/'' @ b)"

text \<open>\<open>p.rfind('/') + 1\<close>: the length of the longest prefix that ends in a slash.\<close>

definition rfind_slash_plus1 :: "string \<Rightarrow> nat" where
  "rfind_slash_plus1 p = length p - length (takeWhile (\<lambda>c. c \<noteq> CHR ''/'') (rev p))"

definition basename :: "string \<Rightarrow> string" where
  "basename p = drop (rfind_slash_plus1 p) p"

definition rstrip_slash :: "string \<Rightarrow> string" where
  "rstrip_slash s = rev (dropWhile (\<lambda>c. c = CHR ''/'') (rev s))"

text \<open>
  \<open>posixpath.dirname\<close>: the head up to the last slash; trailing slashes are stripped
  from it unless it consists of slashes only.
\<close>

definition dirname :: "string \<Rightarrow> string" where
  "dirname p =
     (let head = take (rfind_slash_plus1 p) p
      in if head \<noteq> [] \<and> (\<exists>c \<in> set head. c \<noteq> CHR ''/'') then rstrip_slash head else head)"

text \<open>\<open>os.path.dirname(p) or '.'\<close>\<close>

definition parent_path :: "string \<Rightarrow> string" where
  "parent_path p = (if dirname p = [] then ''.'' else dirname p)"

text \<open>\<open>re.sub(r'/\./', '/', path)\<close>: non-overlapping matches, scanned left to right.\<close>

fun sub_slash_dot_slash :: "string \<Rightarrow> string" where
  "sub_slash_dot_slash (a # b # c # rest) =
     (if a = CHR ''/'' \<and> b = CHR ''.'' \<and> c = CHR ''/''
      then CHR ''/'' # sub_slash_dot_slash rest
      else a # sub_slash_dot_slash (b # c # rest))"
| "sub_slash_dot_slash s = s"

text \<open>\<open>_normalize_path\<close> of \<open>FileSystem\<close> and of \<open>CachedStatsFSAdapterMixin\<close> (same body).\<close>

definition normalize_path :: "string \<Rightarrow> string" where
  "normalize_path path =
     (let q = sub_slash_dot_slash path in if startswith q ''./'' then drop 2 q else q)"

text \<open>
  How the operating system resolves a relative path below the store's root: the
  components between slashes, without empty components and without \<open>.\<close>.
  Paths with \<open>..\<close> components or symbolic links are outside the model.
\<close>

fun split_slash :: "string \<Rightarrow> string list" where
  "split_slash [] = [[]]"
| "split_slash (c # cs) =
     (if c = CHR ''/'' then [] # split_slash cs
      else (case split_slash cs of x # xs \<Rightarrow> (c # x) # xs | [] \<Rightarrow> [[c]]))"

definition resolve :: "string \<Rightarrow> string list" where
  "resolve p = filter (\<lambda>c. c \<noteq> [] \<and> c \<noteq> ''.'') (split_slash p)"

section \<open>StatValues: pandas series keyed by (category, metric)\<close>

text \<open>
  A series is the list of its (key, value) items. Metric values are modelled as
  integers. \<open>dict_to_series\<close> sorts the items by key.
\<close>

type_synonym skey = "string \<times> string"
type_synonym series = "(skey \<times> int) list"

definition dict_to_series :: "(skey \<times> int) list \<Rightarrow> series" where
  "dict_to_series dct = sort_key fst dct"

text \<open>\<open>zero_series\<close>: \<open>series.apply(lambda v: 0)\<close>.\<close>

definition zero_series :: "series \<Rightarrow> series" where
  "zero_series s = map (\<lambda>(k, v). (k, 0)) s"

text \<open>The union of two indexes, sorted (pandas aligns both operands on it).\<close>

definition union_keys :: "('k::linorder \<times> 'a) list \<Rightarrow> ('k \<times> 'b) list \<Rightarrow> 'k list" where
  "union_keys a b = sort (remdups (map fst a @ map fst b))"

text \<open>\<open>a.add(b, fill_value=0)\<close>: a key missing on one side counts as 0 there.\<close>

definition series_add_fill :: "series \<Rightarrow> series \<Rightarrow> series" where
  "series_add_fill a b =
     map (\<lambda>k. (k, (case map_of a k of None \<Rightarrow> 0 | Some x \<Rightarrow> x) +
                  (case map_of b k of None \<Rightarrow> 0 | Some y \<Rightarrow> y)))
         (union_keys a b)"

text \<open>
  The operators \<open>+\<close>, \<open>-\<close> and \<open>mul\<close> of pandas give NaN at a key that one operand
  lacks; their results are series of optional values, \<open>None\<close> standing for NaN.
\<close>

type_synonym nseries = "(skey \<times> int option) list"

definition to_nseries :: "series \<Rightarrow> nseries" where
  "to_nseries s = map (\<lambda>(k, v). (k, Some v)) s"

definition nseries_op :: "(int \<Rightarrow> int \<Rightarrow> int) \<Rightarrow> nseries \<Rightarrow> nseries \<Rightarrow> nseries" where
  "nseries_op f a b =
     map (\<lambda>k. (k, (case (map_of a k, map_of b k) of
                     (Some (Some x), Some (Some y)) \<Rightarrow> Some (f x y)
                   | _ \<Rightarrow> None)))
         (union_keys a b)"

definition series_plus :: "nseries \<Rightarrow> nseries \<Rightarrow> nseries" where
  "series_plus = nseries_op (+)"

definition series_minus :: "nseries \<Rightarrow> nseries \<Rightarrow> nseries" where
  "series_minus = nseries_op (-)"

definition series_mul :: "nseries \<Rightarrow> int \<Rightarrow> nseries" where
  "series_mul s n = map (\<lambda>(k, v). (k, map_option (\<lambda>x. x * n) v)) s"

text \<open>
  Python's \<open>sum(list)\<close> starts from the integer 0: the result for the empty list is
  that 0 (here \<open>None\<close>); \<open>0 + series\<close> is the series.
\<close>

fun sum_series :: "series list \<Rightarrow> nseries option" where
  "sum_series [] = None"
| "sum_series (s # ss) = Some (foldl series_plus (to_nseries s) (map to_nseries ss))"

section \<open>The Snapshot Store: class \<open>FileSystem\<close>\<close>

text \<open>
  A store is the working directory of a \<open>FileSystem\<close>: its files, keyed by their
  resolved path below the root, and its directories (the root is \<open>[]\<close>). The content of
  a file is the YAML document it holds. Listings return the entries in the order of these
  lists (\<open>scandir\<close> promises no order). Files and directories live in separate
  namespaces: a path that is both, and a path of the store that is absolute, are outside
  the model.
\<close>

type_synonym methods = "(string \<times> string \<times> int) list"

datatype content =
    StatsYaml "(skey \<times> int) list"
  | MethodsYaml methods
  | OtherYaml

record file_system =
  files :: "(string list \<times> content) list"
  dirs :: "string list list"

datatype error = OSError | IOError | ValueError | TypeError | StopIteration

definition fs_exists :: "file_system \<Rightarrow> string \<Rightarrow> bool" where
  "fs_exists fs p \<longleftrightarrow> resolve p \<in> set (dirs fs) \<or> map_of (files fs) (resolve p) \<noteq> None"

text \<open>
  \<open>add_file\<close>: \<open>os.makedirs\<close> of the parent directory when it is missing, then the file
  is opened for writing and the caller's text replaces what was there.
\<close>

definition add_file :: "file_system \<Rightarrow> string \<Rightarrow> content \<Rightarrow> file_system" where
  "add_file fs p c =
     (let k = resolve (normalize_path p)
      in fs\<lparr>files := AList.update k c (files fs),
            dirs := List.union (dirs fs) (prefixes (butlast k))\<rparr>)"

definition fs_read :: "file_system \<Rightarrow> string \<Rightarrow> content option" where
  "fs_read fs p = map_of (files fs) (resolve p)"

definition entry_names :: "file_system \<Rightarrow> string list \<Rightarrow> string list" where
  "entry_names fs d =
     map last (filter (\<lambda>k. k \<noteq> [] \<and> butlast k = d) (map fst (files fs) @ dirs fs))"

definition ls_files :: "file_system \<Rightarrow> string \<Rightarrow> string list" where
  "ls_files fs p = (if \<not> fs_exists fs p then [] else entry_names fs (resolve p))"

text \<open>\<open>ls_dirs\<close> scans without the existence test: a missing directory raises.\<close>

definition ls_dirs :: "file_system \<Rightarrow> string \<Rightarrow> error + string list" where
  "ls_dirs fs p =
     (if resolve p \<notin> set (dirs fs) then Inl OSError
      else Inr (map last (filter (\<lambda>k. k \<noteq> [] \<and> butlast k = resolve p \<and>
                                       \<not> startswith (last k) ''.'') (dirs fs))))"

definition fs_rm :: "file_system \<Rightarrow> string \<Rightarrow> file_system" where
  "fs_rm fs p = fs\<lparr>files := AList.delete (resolve p) (files fs)\<rparr>"

text \<open>\<open>rmdir\<close>: \<open>os.rmdir\<close> fails on a directory that is not empty, and the error is ignored.\<close>

definition dir_is_empty :: "file_system \<Rightarrow> string list \<Rightarrow> bool" where
  "dir_is_empty fs d \<longleftrightarrow> entry_names fs d = []"

definition fs_rmdir :: "file_system \<Rightarrow> string \<Rightarrow> file_system" where
  "fs_rmdir fs p =
     (let d = resolve p
      in if d \<in> set (dirs fs) \<and> dir_is_empty fs d then fs\<lparr>dirs := removeAll d (dirs fs)\<rparr>
         else fs)"

section \<open>The stats adapters\<close>

definition stats_ext :: string where
  "stats_ext = ''.stats.yaml''"

text \<open>\<open>StatsFSAdapter\<close>: the plain adapter. \<open>set\<close> dumps \<open>series_to_dict(series)\<close>.\<close>

definition adapter_set :: "file_system \<Rightarrow> string \<Rightarrow> series \<Rightarrow> file_system" where
  "adapter_set fs path series = add_file fs (path @ stats_ext) (StatsYaml series)"

text \<open>
  \<open>get\<close>: \<open>read_stats_file\<close> of the file's text, the default \<open>None\<close> when there is no
  file. Only \<open>set\<close> writes files with this extension; for a file with another kind of
  document the model returns the default.
\<close>

definition adapter_get :: "file_system \<Rightarrow> string \<Rightarrow> series option" where
  "adapter_get fs path =
     (case fs_read fs (path @ stats_ext) of
        Some (StatsYaml dct) \<Rightarrow> Some (dict_to_series dct)
      | _ \<Rightarrow> None)"

definition adapter_rm :: "file_system \<Rightarrow> string \<Rightarrow> file_system" where
  "adapter_rm fs path = fs_rm fs (path @ stats_ext)"

definition adapter_ls :: "file_system \<Rightarrow> string \<Rightarrow> string list" where
  "adapter_ls fs path =
     map (str_remove_all stats_ext) (filter (\<lambda>f. endswith f stats_ext) (ls_files fs path))"

text \<open>
  \<open>CachedStatsFSAdapterMixin\<close> over the plain adapter (\<open>CachedStatsFSAdapter\<close>). The cache
  is the dictionary from a path to the pickled value: the value \<open>None\<close> is both the \<open>None\<close>
  that \<open>rm\<close> stores and a pickled \<open>None\<close>, which \<open>get\<close> answers alike.
\<close>

record adapter =
  store :: file_system
  cache :: "(string \<times> series option) list"

definition new_adapter :: "file_system \<Rightarrow> adapter" where
  "new_adapter fs = \<lparr>store = fs, cache = []\<rparr>"

definition cached_get :: "adapter \<Rightarrow> string \<Rightarrow> series option \<times> adapter" where
  "cached_get a path0 =
     (let path = normalize_path path0
      in case map_of (cache a) path of
           Some data \<Rightarrow> (data, a)
         | None \<Rightarrow>
             (let series = adapter_get (store a) path
              in (series, a\<lparr>cache := AList.update path series (cache a)\<rparr>)))"

definition cached_set :: "adapter \<Rightarrow> string \<Rightarrow> series \<Rightarrow> adapter" where
  "cached_set a path0 series =
     (let path = normalize_path path0
      in a\<lparr>cache := AList.update path (Some series) (cache a),
           store := adapter_set (store a) path series\<rparr>)"

definition cached_rm :: "adapter \<Rightarrow> string \<Rightarrow> adapter" where
  "cached_rm a path =
     a\<lparr>cache := AList.update path None (cache a), store := adapter_rm (store a) path\<rparr>"

section \<open>The source tree and the analyzer\<close>

text \<open>
  The materialized source tree below \<open>source_root\<close>. A file carries what
  \<open>_analyze_file\<close> returns for it: the result dictionary (its stats items and its method
  list), or \<open>None\<close> when the analysis raised \<open>AnalysisFailed\<close>.
\<close>

datatype src_node =
    SrcFile "((skey \<times> int) list \<times> methods) option"
  | SrcDir "(string \<times> src_node) list"

type_synonym src_tree = "(string \<times> src_node) list"

fun src_lookup :: "src_tree \<Rightarrow> string list \<Rightarrow> src_node option" where
  "src_lookup root [] = Some (SrcDir root)"
| "src_lookup root (n # ns) =
     (case map_of root n of
        None \<Rightarrow> None
      | Some (SrcFile r) \<Rightarrow> (if ns = [] then Some (SrcFile r) else None)
      | Some (SrcDir sub) \<Rightarrow> src_lookup sub ns)"

text \<open>\<open>_source_exists(dir_path, f)\<close>\<close>

definition source_exists :: "src_tree \<Rightarrow> string \<Rightarrow> string \<Rightarrow> bool" where
  "source_exists src dir_path f \<longleftrightarrow> src_lookup src (resolve (path_join dir_path f)) \<noteq> None"

text \<open>\<open>scandir.scandir(self._source_path(dir_path))\<close>: the names of the entries.\<close>

definition src_scandir :: "src_tree \<Rightarrow> string \<Rightarrow> error + string list" where
  "src_scandir src dir_path =
     (case src_lookup src (resolve dir_path) of
        Some (SrcDir sub) \<Rightarrow> Inr (map fst sub)
      | _ \<Rightarrow> Inl OSError)"

text \<open>\<open>_analyze_file\<close>: opening a directory or a missing file raises, uncaught.\<close>

definition analyze_file :: "src_tree \<Rightarrow> string \<Rightarrow> error + ((skey \<times> int) list \<times> methods) option" where
  "analyze_file src path =
     (case src_lookup src (resolve path) of
        Some (SrcFile r) \<Rightarrow> Inr r
      | _ \<Rightarrow> Inl IOError)"

fun scandirs_depth_first :: "src_tree \<Rightarrow> string list" where
  "scandirs_depth_first [] = []"
| "scandirs_depth_first ((n, SrcFile r) # es) = scandirs_depth_first es"
| "scandirs_depth_first ((n, SrcDir sub) # es) =
     (if startswith n ''.'' then []
      else map (path_join n) (scandirs_depth_first sub) @ [n]) @ scandirs_depth_first es"

section \<open>The Aggregation Engine: class \<open>StatsUpdater\<close>\<close>

text \<open>
  The updater's state is its cached adapter \<open>_dest_stats\<close>, whose store is \<open>_dest_fs\<close>.
  The regular expressions are parameters: \<open>is_test name\<close> says that some test pattern
  matches the name, \<open>ignored path\<close> that some ignore pattern matches the path.
\<close>

definition store_stats :: "adapter \<Rightarrow> series \<Rightarrow> string \<Rightarrow> string \<Rightarrow> adapter" where
  "store_stats a series dir_path name = cached_set a (path_join dir_path name) series"

definition load_stats :: "adapter \<Rightarrow> string \<Rightarrow> string \<Rightarrow> series option \<times> adapter" where
  "load_stats a dir_path name = cached_get a (path_join dir_path name)"

definition remove_stats_file :: "adapter \<Rightarrow> string \<Rightarrow> string \<Rightarrow> adapter" where
  "remove_stats_file a dir_path name = cached_rm a (path_join dir_path name)"

definition remove_stats_dir :: "adapter \<Rightarrow> string \<Rightarrow> string \<Rightarrow> adapter" where
  "remove_stats_dir a dir_path subdir = a\<lparr>store := fs_rmdir (store a) (path_join dir_path subdir)\<rparr>"

definition stats_dirs :: "adapter \<Rightarrow> string \<Rightarrow> error + string list" where
  "stats_dirs a dir_path = ls_dirs (store a) dir_path"

definition py_stats_files :: "adapter \<Rightarrow> string \<Rightarrow> string list" where
  "py_stats_files a dir_path = filter (\<lambda>f. endswith f ''.py'') (adapter_ls (store a) dir_path)"

definition py_method_files :: "adapter \<Rightarrow> string \<Rightarrow> string list" where
  "py_method_files a dir_path = filter (\<lambda>f. endswith f ''.py'') (ls_files (store a) dir_path)"

definition non_py_stats_files :: "adapter \<Rightarrow> string \<Rightarrow> string list" where
  "non_py_stats_files a dir_path =
     filter (\<lambda>f. \<not> endswith f ''.py'') (adapter_ls (store a) dir_path)"

subsection \<open>\<open>_visit_files_in_dir\<close>\<close>

text \<open>
  The loop over the analysis results, zipped with the file names: a file whose analysis
  returned \<open>None\<close> is passed over; for the others the stats and the sorted method list are
  written.
\<close>

fun store_results ::
  "src_tree \<Rightarrow> string \<Rightarrow> string list \<Rightarrow> bool \<Rightarrow> adapter \<Rightarrow> error + (bool \<times> adapter)" where
  "store_results src dir_path [] has_changes a = Inr (has_changes, a)"
| "store_results src dir_path (file_name # rest) has_changes a =
     (case analyze_file src (path_join dir_path file_name) of
        Inl e \<Rightarrow> Inl e
      | Inr None \<Rightarrow> store_results src dir_path rest has_changes a
      | Inr (Some (result_dict, methods)) \<Rightarrow>
          (let a1 = store_stats a (dict_to_series result_dict) dir_path file_name;
               a2 = a1\<lparr>store := add_file (store a1)
                                   (path_join dir_path (file_name @ ''.methods.yaml''))
                                   (MethodsYaml (sort_key fst methods))\<rparr>
           in store_results src dir_path rest True a2))"

definition files_to_analyze ::
  "string \<Rightarrow> string list option \<Rightarrow> (string \<Rightarrow> bool) \<Rightarrow> string list \<Rightarrow> string list" where
  "files_to_analyze dir_path paths ignored names =
     filter (\<lambda>f. endswith f ''.py'' \<and>
                 (case paths of None \<Rightarrow> True
                  | Some ps \<Rightarrow> \<not> (\<exists>p \<in> set ps. startswith (path_join dir_path f) p)) \<and>
                 \<not> ignored (path_join dir_path f)) names"

definition stale_stats_files :: "src_tree \<Rightarrow> adapter \<Rightarrow> string \<Rightarrow> string list option \<Rightarrow> string list" where
  "stale_stats_files src a dir_path changed_files =
     filter (\<lambda>f. (case changed_files of None \<Rightarrow> True | Some cf \<Rightarrow> f \<in> set cf) \<and>
                 \<not> source_exists src dir_path f)
            (py_stats_files a dir_path @ py_method_files a dir_path)"

definition visit_files_in_dir ::
  "src_tree \<Rightarrow> adapter \<Rightarrow> string \<Rightarrow> string list option \<Rightarrow> string list option \<Rightarrow>
   (string \<Rightarrow> bool) \<Rightarrow> error + (bool \<times> adapter)" where
  "visit_files_in_dir src a dir_path changed_files paths ignored =
     (case (case changed_files of
              None \<Rightarrow> src_scandir src dir_path
            | Some cf \<Rightarrow> Inr (filter (source_exists src dir_path) cf)) of
        Inl e \<Rightarrow> Inl e
      | Inr names \<Rightarrow>
          (case store_results src dir_path (files_to_analyze dir_path paths ignored names)
                  False a of
             Inl e \<Rightarrow> Inl e
           | Inr (has_changes, a1) \<Rightarrow>
               (let stale = stale_stats_files src a1 dir_path changed_files;
                    a2 = fold (\<lambda>stale_file b. remove_stats_file b dir_path stale_file) stale a1
                in Inr (has_changes \<or> stale \<noteq> [], a2))))"

subsection \<open>\<open>_aggregate_dir\<close>\<close>

text \<open>
  \<open>re.sub(r'.stats.yaml$', '', stats_file)\<close>: the dots of the pattern match any
  character (file names hold no newline).
\<close>

definition sub_stats_yaml_suffix :: "string \<Rightarrow> string" where
  "sub_stats_yaml_suffix f =
     (let t = drop (length f - 11) f
      in if 11 \<le> length f \<and> take 5 (drop 1 t) = ''stats'' \<and> drop 7 t = ''yaml''
         then take (length f - 11) f else f)"

text \<open>
  The loop over the directory's records. \<open>totals\<close> is \<open>None\<close> until the first record has
  been read. A listed record that loads as \<open>None\<close> breaks the arithmetic.
\<close>

fun sum_dir_files ::
  "(string \<Rightarrow> bool) \<Rightarrow> string \<Rightarrow> string list \<Rightarrow> (series \<times> series \<times> series) option \<Rightarrow>
   adapter \<Rightarrow> error + ((series \<times> series \<times> series) option \<times> adapter)" where
  "sum_dir_files is_test dir_path [] totals a = Inr (totals, a)"
| "sum_dir_files is_test dir_path (stats_file # rest) totals a =
     (case load_stats a dir_path stats_file of
        (None, a1) \<Rightarrow> Inl TypeError
      | (Some series, a1) \<Rightarrow>
          (let (tot, tot_test, tot_non_test) =
                 (case totals of
                    None \<Rightarrow> (zero_series series, zero_series series, zero_series series)
                  | Some t \<Rightarrow> t);
               tot1 = series_add_fill tot series
           in sum_dir_files is_test dir_path rest
                (Some (if is_test (sub_stats_yaml_suffix stats_file)
                       then (tot1, series_add_fill tot_test series, tot_non_test)
                       else (tot1, tot_test, series_add_fill tot_non_test series)))
                a1))"

definition aggregate_dir :: "(string \<Rightarrow> bool) \<Rightarrow> adapter \<Rightarrow> string \<Rightarrow> error + adapter" where
  "aggregate_dir is_test a dir_path =
     (let individual_stats_files = py_stats_files a dir_path
      in case sum_dir_files is_test dir_path individual_stats_files None a of
           Inl e \<Rightarrow> Inl e
         | Inr (None, a1) \<Rightarrow>
             Inr (fold (\<lambda>name b. remove_stats_file b dir_path name)
                       [''TOTAL'', ''TOTAL_TEST'', ''TOTAL_NON_TEST''] a1)
         | Inr (Some (tot, tot_test, tot_non_test), a1) \<Rightarrow>
             Inr (store_stats
                   (store_stats (store_stats a1 tot dir_path ''TOTAL'')
                      tot_test dir_path ''TOTAL_TEST'')
                   tot_non_test dir_path ''TOTAL_NON_TEST''))"

subsection \<open>\<open>_aggregate_subtree\<close>\<close>

text \<open>\<open>os.path.join(*parts)\<close> for the tuples of path parts.\<close>

fun join_parts :: "string list \<Rightarrow> string" where
  "join_parts [] = []"
| "join_parts (x # xs) = foldl path_join x xs"

text \<open>
  The inner loop over \<open>subtotal_paths\<close>: the values that exist are collected, and
  \<open>subtotal_path[1:-1]\<close> (the subdirectory, or the empty tuple for the directory's own
  total) is added to \<open>found_stats\<close>.
\<close>

fun load_subtotals ::
  "adapter \<Rightarrow> string list list \<Rightarrow> series list \<Rightarrow> string list list \<Rightarrow>
   series list \<times> string list list \<times> adapter" where
  "load_subtotals a [] subtotal_stats found_stats = (subtotal_stats, found_stats, a)"
| "load_subtotals a (subtotal_path # rest) subtotal_stats found_stats =
     (case cached_get a (join_parts subtotal_path) of
        (None, a1) \<Rightarrow> load_subtotals a1 rest subtotal_stats found_stats
      | (Some stats, a1) \<Rightarrow>
          load_subtotals a1 rest (subtotal_stats @ [stats])
            (List.insert (butlast (tl subtotal_path)) found_stats))"

text \<open>
  \<open>series_to_dict\<close> converts every value with \<open>int(value)\<close>, which raises on NaN: a
  total with a NaN cannot be stored.
\<close>

fun series_to_dict :: "nseries \<Rightarrow> error + series" where
  "series_to_dict [] = Inr []"
| "series_to_dict ((k, None) # rest) = Inl ValueError"
| "series_to_dict ((k, Some v) # rest) =
     (case series_to_dict rest of Inl e \<Rightarrow> Inl e | Inr r \<Rightarrow> Inr ((k, v) # r))"

definition subtotal_paths :: "string \<Rightarrow> string list \<Rightarrow> string \<Rightarrow> string list list" where
  "subtotal_paths dir_path subdirs name =
     map (\<lambda>d. [dir_path, d, ''SUBTREE_'' @ name]) subdirs @ [[dir_path, name]]"

text \<open>The loop over the three names; \<open>found_stats\<close> is shared by its rounds.\<close>

fun subtree_totals ::
  "string \<Rightarrow> string list \<Rightarrow> string list \<Rightarrow> string list \<Rightarrow> string list list \<Rightarrow> adapter \<Rightarrow>
   error + (string list list \<times> adapter)" where
  "subtree_totals dir_path subdirs existing_totals [] found_stats a = Inr (found_stats, a)"
| "subtree_totals dir_path subdirs existing_totals (name # names) found_stats a =
     (case load_subtotals a (subtotal_paths dir_path subdirs name) [] found_stats of
        (subtotal_stats, found1, a1) \<Rightarrow>
          (case sum_series subtotal_stats of
             None \<Rightarrow>
               subtree_totals dir_path subdirs existing_totals names found1
                 (if ''SUBTREE_'' @ name \<in> set existing_totals
                  then remove_stats_file a1 dir_path (''SUBTREE_'' @ name) else a1)
           | Some tot \<Rightarrow>
               (case series_to_dict tot of
                  Inl e \<Rightarrow> Inl e
                | Inr series \<Rightarrow>
                    subtree_totals dir_path subdirs existing_totals names found1
                      (store_stats a1 series dir_path (''SUBTREE_'' @ name)))))"

text \<open>The last loop: the subdirectories that gave no data are removed.\<close>

definition remove_empty_subdirs ::
  "string \<Rightarrow> string list \<Rightarrow> string list list \<Rightarrow> adapter \<Rightarrow> adapter" where
  "remove_empty_subdirs dir_path subdirs found_stats a =
     fold (\<lambda>subdir b. if [subdir] \<notin> set found_stats then remove_stats_dir b dir_path subdir else b)
          subdirs a"

definition total_names :: "string list" where
  "total_names = [''TOTAL'', ''TOTAL_TEST'', ''TOTAL_NON_TEST'']"

definition aggregate_subtree :: "adapter \<Rightarrow> string \<Rightarrow> error + adapter" where
  "aggregate_subtree a dir_path =
     (case stats_dirs a dir_path of
        Inl e \<Rightarrow> Inl e
      | Inr subdirs \<Rightarrow>
          (case subtree_totals dir_path subdirs (non_py_stats_files a dir_path)
                  total_names [] a of
             Inl e \<Rightarrow> Inl e
           | Inr (found_stats, a1) \<Rightarrow> Inr (remove_empty_subdirs dir_path subdirs found_stats a1)))"

subsection \<open>\<open>_aggregate_subtrees\<close>\<close>

text \<open>
  The heap of \<open>(-len(path), path)\<close> pairs is kept as a sorted list: \<open>heappop\<close> takes the
  least pair, the head. \<open>finished_paths\<close> is a list in the order the directories were
  processed; the source's set is the set of its elements.
\<close>

definition heappush :: "(int \<times> string) list \<Rightarrow> string \<Rightarrow> (int \<times> string) list" where
  "heappush heap path = insort (- int (length path), path) heap"

function aggregate_subtrees_loop ::
  "(int \<times> string) list \<Rightarrow> string list \<Rightarrow> adapter \<Rightarrow> error + (string list \<times> adapter)" where
  "aggregate_subtrees_loop [] finished_paths a = Inr (finished_paths, a)"
| "aggregate_subtrees_loop ((n, dir_path) # heap) finished_paths a =
     (if dir_path \<in> set finished_paths then aggregate_subtrees_loop heap finished_paths a
      else (case aggregate_subtree a dir_path of
              Inl e \<Rightarrow> Inl e
            | Inr a1 \<Rightarrow>
                aggregate_subtrees_loop (heappush heap (parent_path dir_path))
                  (finished_paths @ [dir_path]) a1))"
  by pat_completeness auto

definition aggregate_subtrees :: "adapter \<Rightarrow> string list \<Rightarrow> error + (string list \<times> adapter)" where
  "aggregate_subtrees a dir_paths = aggregate_subtrees_loop (fold (\<lambda>p h. heappush h p) dir_paths []) [] a"

subsection \<open>\<open>update\<close>\<close>

text \<open>
  \<open>_generate_dirs_and_files\<close>: for a full rescan every directory of the source tree, the
  root last; otherwise the changed files grouped by their directory.
\<close>

fun group_by_dir :: "string list \<Rightarrow> (string \<times> string list) list \<Rightarrow> (string \<times> string list) list" where
  "group_by_dir [] files_by_dir = files_by_dir"
| "group_by_dir (f # rest) files_by_dir =
     group_by_dir rest
       (AList.update (parent_path f)
          (List.insert (basename f)
             (case map_of files_by_dir (parent_path f) of None \<Rightarrow> [] | Some fs \<Rightarrow> fs))
          files_by_dir)"

definition generate_dirs_and_files ::
  "src_tree \<Rightarrow> string list option \<Rightarrow> (string \<times> string list option) list" where
  "generate_dirs_and_files src changed_files =
     (case changed_files of
        None \<Rightarrow> map (\<lambda>d. (d, None)) (scandirs_depth_first src @ [''.''])
      | Some cf \<Rightarrow> map (\<lambda>(d, fs). (d, Some fs)) (group_by_dir cf []))"

text \<open>The loop of \<open>update\<close> over the directories.\<close>

fun visit_dirs ::
  "src_tree \<Rightarrow> (string \<Rightarrow> bool) \<Rightarrow> string list option \<Rightarrow> (string \<Rightarrow> bool) \<Rightarrow>
   (string \<times> string list option) list \<Rightarrow> string list \<Rightarrow> adapter \<Rightarrow>
   error + (string list \<times> adapter)" where
  "visit_dirs src is_test paths ignored [] dirty_dirs a = Inr (dirty_dirs, a)"
| "visit_dirs src is_test paths ignored ((dir_path, fs) # rest) dirty_dirs a =
     (case visit_files_in_dir src a dir_path fs paths ignored of
        Inl e \<Rightarrow> Inl e
      | Inr (has_changes, a1) \<Rightarrow>
          (if has_changes
           then (case aggregate_dir is_test a1 dir_path of
                   Inl e \<Rightarrow> Inl e
                 | Inr a2 \<Rightarrow>
                     visit_dirs src is_test paths ignored rest (List.insert dir_path dirty_dirs) a2)
           else visit_dirs src is_test paths ignored rest dirty_dirs a1))"

definition update ::
  "src_tree \<Rightarrow> (string \<Rightarrow> bool) \<Rightarrow> adapter \<Rightarrow> string list option \<Rightarrow> string list option \<Rightarrow>
   (string \<Rightarrow> bool) \<Rightarrow> error + (string list \<times> adapter)" where
  "update src is_test a changed_files paths ignored =
     (case visit_dirs src is_test paths ignored (generate_dirs_and_files src changed_files) [] a of
        Inl e \<Rightarrow> Inl e
      | Inr (dirty_dirs, a1) \<Rightarrow>
          (if dirty_dirs \<noteq> []
           then (case aggregate_subtrees a1 dirty_dirs of
                   Inl e \<Rightarrow> Inl e
                 | Inr (finished_paths, a2) \<Rightarrow> Inr (List.union finished_paths dirty_dirs, a2))
           else Inr (dirty_dirs, a1)))"

section \<open>The Delta Reconstructor: \<open>generate_stats_for_stats_fs_commits\<close>\<close>

text \<open>
  One entry of \<open>prev_commit.diff(commit.hexsha)\<close>. GitPython fills both paths of an
  entry read from a raw diff (the same path twice unless the entry is a rename) and marks
  additions and deletions by the two flags.
\<close>

record diff_entry =
  a_path :: string
  b_path :: string
  new_file :: bool
  deleted_file :: bool

text \<open>\<open>_generate_changed_files\<close>; the caller makes a set of the pairs.\<close>

definition generate_changed_files :: "diff_entry list \<Rightarrow> (string option \<times> string option) list" where
  "generate_changed_files diffs =
     map (\<lambda>d. (if new_file d then None else Some (a_path d),
                 if deleted_file d then None else Some (b_path d)))
         (filter (\<lambda>d. endswith (if a_path d \<noteq> [] then a_path d else b_path d) stats_ext) diffs)"

record stats_row =
  filename :: string
  commit :: string
  lines :: "int \<times> int \<times> int"
  lines_test :: "int \<times> int \<times> int"
  lines_non_test :: "int \<times> int \<times> int"
  delta :: nseries
  after :: series

text \<open>
  \<open>generate_deltas\<close> and the loop that sums them: the entries of the change manifest
  below the prefix, split by \<open>is_test\<close> of their base name.
\<close>

definition add3 :: "int \<times> int \<times> int \<Rightarrow> int \<times> int \<times> int \<Rightarrow> int \<times> int \<times> int" where
  "add3 x y = (case (x, y) of ((a, b, c), (d, e, f)) \<Rightarrow> (a + d, b + e, c + f))"

definition line_totals ::
  "(string \<times> int \<times> int \<times> int) list \<Rightarrow> (string \<Rightarrow> bool) \<Rightarrow> string \<Rightarrow>
   (int \<times> int \<times> int) \<times> (int \<times> int \<times> int) \<times> (int \<times> int \<times> int)" where
  "line_totals line_changes is_test pfx =
     foldl (\<lambda>(tot, tot_test, tot_non_test) (entry, line_delta).
              if is_test (basename entry)
              then (add3 tot line_delta, add3 tot_test line_delta, tot_non_test)
              else (add3 tot line_delta, tot_test, add3 tot_non_test line_delta))
           ((0, 0, 0), (0, 0, 0), (0, 0, 0))
           (filter (\<lambda>(entry, line_delta). \<not> (pfx \<noteq> [] \<and> \<not> startswith entry pfx))
                   line_changes)"

text \<open>
  \<open>read_stats_file\<close> of a side of the change, when the path is truthy (\<open>None\<close> and
  the empty string are not).
\<close>

definition load_side :: "(string \<Rightarrow> (skey \<times> int) list) \<Rightarrow> string option \<Rightarrow> series option" where
  "load_side show_tree p =
     (case p of
        None \<Rightarrow> None
      | Some s \<Rightarrow> (if s \<noteq> [] then Some (dict_to_series (show_tree s)) else None))"

text \<open>
  The test on the filters: \<open>filters\<close> is \<open>None\<close>, or the test that some filter matches
  the file (\<open>any(re.search(p, file) for p in filters)\<close>).
\<close>

definition passes_filters :: "(string \<Rightarrow> bool) option \<Rightarrow> string \<Rightarrow> bool" where
  "passes_filters filters file = (case filters of None \<Rightarrow> True | Some f \<Rightarrow> f file)"

text \<open>
  The rows of one changed pair, once both sides are there: one row for each distinct
  path of the pair that is not \<open>None\<close> and passes the filters. The paths are the elements
  of a Python set, which has no fixed order: \<open>dest_first\<close> says which of the two it
  yields first.
\<close>

definition stats_rows ::
  "bool \<Rightarrow> (string \<times> int \<times> int \<times> int) list \<Rightarrow> (string \<Rightarrow> bool) option \<Rightarrow> (string \<Rightarrow> bool) \<Rightarrow>
   string \<Rightarrow> string option \<Rightarrow> string option \<Rightarrow> series \<Rightarrow> series \<Rightarrow> stats_row list" where
  "stats_rows dest_first line_changes filters is_test commit_sha src dest before1 after1 =
     (let diff = series_minus (to_nseries after1) (to_nseries before1)
      in map (\<lambda>file.
                (let fname = str_remove_all stats_ext file;
                     sign = (if Some file = dest then 1 else - 1);
                     pfx = (if endswith fname ''.py'' then fname else dirname fname);
                     (tot, tot_test, tot_non_test) = line_totals line_changes is_test pfx
                 in \<lparr>filename = fname, commit = commit_sha, lines = tot,
                      lines_test = tot_test, lines_non_test = tot_non_test,
                      delta = series_mul diff sign, after = after1\<rparr>))
             (filter (passes_filters filters)
                (remdups (List.map_filter (\<lambda>v. v)
                            (if dest_first then [dest, src] else [src, dest])))))"

text \<open>
  The body of the loop over the changed pairs. \<open>show_prev\<close> and \<open>show_current\<close> give the
  stats document at a path of the parent's and of the commit's tree (\<open>git show sha:path\<close>).
  With both sides missing, \<open>zero_series(None)\<close> raises.
\<close>

definition stats_for_change ::
  "bool \<Rightarrow> (string \<Rightarrow> (skey \<times> int) list) \<Rightarrow> (string \<Rightarrow> (skey \<times> int) list) \<Rightarrow>
   (string \<times> int \<times> int \<times> int) list \<Rightarrow> (string \<Rightarrow> bool) option \<Rightarrow> (string \<Rightarrow> bool) \<Rightarrow>
   string \<Rightarrow> string option \<times> string option \<Rightarrow> error + stats_row list" where
  "stats_for_change dest_first show_prev show_current line_changes filters is_test commit_sha change =
     (case change of (src, dest) \<Rightarrow>
        (case (load_side show_prev src, load_side show_current dest) of
           (None, None) \<Rightarrow> Inl TypeError
         | (None, Some a) \<Rightarrow>
             Inr (stats_rows dest_first line_changes filters is_test commit_sha src dest
                    (zero_series a) a)
         | (Some b, None) \<Rightarrow>
             Inr (stats_rows dest_first line_changes filters is_test commit_sha src dest
                    b (zero_series b))
         | (Some b, Some a) \<Rightarrow>
             Inr (stats_rows dest_first line_changes filters is_test commit_sha src dest b a)))"

section \<open>The Replay Engine: \<open>generate_stats_fs_commits_for_source_commits\<close>\<close>

text \<open>
  The source repository and the updater are the environment of a replay: the parents,
  message and tree of a commit, the paths of \<open>commit.diff(prev_sha)\<close>, the tree the clone
  has checked out at the start, the effect of \<open>StatsUpdater.update\<close> (given the
  materialized tree, the changed files and \<open>paths\<close>) on the store's working tree, and
  the writing of the two change manifests of a commit.
\<close>

record ('w, 't) replay_env =
  parents_of :: "string \<Rightarrow> string list"
  message_of :: "string \<Rightarrow> string"
  tree_of :: "string \<Rightarrow> 'w"
  head_tree :: 'w
  diff_paths :: "string \<Rightarrow> string \<Rightarrow> string list"
  run_update :: "'w \<Rightarrow> string list option \<Rightarrow> string list option \<Rightarrow> 't \<Rightarrow> error + 't"
  write_manifests :: "string \<Rightarrow> 't \<Rightarrow> 't"

text \<open>
  The Git-backed store: its working tree and its commits, oldest first. A commit is
  identified by its position.
\<close>

record 't stats_fs =
  work_tree :: 't
  commits :: "(string \<times> 't) list"

definition head_message :: "'t stats_fs \<Rightarrow> string option" where
  "head_message fs = (if commits fs = [] then None else Some (fst (last (commits fs))))"

definition fs_commit :: "'t stats_fs \<Rightarrow> string \<Rightarrow> nat \<times> 't stats_fs" where
  "fs_commit fs message =
     (length (commits fs), fs\<lparr>commits := commits fs @ [(message, work_tree fs)]\<rparr>)"

text \<open>The id of the empty tree, \<open>git hash-object -t tree /dev/null\<close>.\<close>

definition empty_sha :: string where
  "empty_sha = ''4b825dc642cb6eb9a060e54bf8d69288fbee4904''"

text \<open>
  \<open>_get_parent_sha\<close>: the first parent, or the default; \<open>get_parent_sha\<close> is the call
  with the default \<open>None\<close>, \<open>get_parent_or_empty\<close> the call with the default \<open>empty_sha\<close>.
\<close>

definition get_parent_sha :: "('w, 't) replay_env \<Rightarrow> string \<Rightarrow> string option" where
  "get_parent_sha env sha = (case parents_of env sha of [] \<Rightarrow> None | p # _ \<Rightarrow> Some p)"

definition get_parent_or_empty :: "('w, 't) replay_env \<Rightarrow> string \<Rightarrow> string" where
  "get_parent_or_empty env sha = (case parents_of env sha of [] \<Rightarrow> empty_sha | p # _ \<Rightarrow> p)"

text \<open>
  The two messages of the loop: \<open>'[ignore] ' + current_sha + '\n'\<close> for the catch-up
  commit and \<open>commit.hexsha + '\n' + commit.message\<close> for the visible one.
\<close>

definition ignore_message :: "string \<Rightarrow> string" where
  "ignore_message current_sha = ''[ignore] '' @ current_sha @ [CHR 0x0A]"

definition visible_message :: "('w, 't) replay_env \<Rightarrow> string \<Rightarrow> string" where
  "visible_message env current_sha = current_sha @ [CHR 0x0A] @ message_of env current_sha"

text \<open>
  The body of the loop over the (current, previous) pairs. The state is the tree the
  clone has checked out and the store. In incremental mode the store is first brought to
  the previous revision and committed under an \<open>[ignore]\<close> message.
\<close>

definition replay_step ::
  "('w, 't) replay_env \<Rightarrow> bool \<Rightarrow> string list option \<Rightarrow> 'w \<times> 't stats_fs \<Rightarrow>
   string \<times> string option \<Rightarrow> error + (nat \<times> 'w \<times> 't stats_fs)" where
  "replay_step env incremental paths st pair =
     (case (st, pair) of ((wt, fs), (current_sha, prev0)) \<Rightarrow>
        (let prev_sha = (case prev0 of
                           None \<Rightarrow> get_parent_or_empty env current_sha
                         | Some p \<Rightarrow> p);
             changed_files = remdups (diff_paths env current_sha prev_sha)
         in case (if incremental
                  then (let wt1 = (if prev_sha \<noteq> empty_sha then tree_of env prev_sha else wt)
                        in case run_update env wt1
                                  (Some (if prev_sha \<noteq> empty_sha then changed_files else []))
                                  paths (work_tree fs) of
                             Inl e \<Rightarrow> Inl e
                           | Inr t \<Rightarrow>
                               Inr (snd (fs_commit (fs\<lparr>work_tree := t\<rparr>)
                                          (ignore_message current_sha))))
                  else Inr fs) of
              Inl e \<Rightarrow> Inl e
            | Inr fs1 \<Rightarrow>
                (case run_update env (tree_of env current_sha) (Some changed_files) paths
                        (work_tree fs1) of
                   Inl e \<Rightarrow> Inl e
                 | Inr t \<Rightarrow>
                     (case fs_commit (fs1\<lparr>work_tree := write_manifests env current_sha t\<rparr>)
                             (visible_message env current_sha) of
                        (cid, fs2) \<Rightarrow> Inr (cid, tree_of env current_sha, fs2)))))"

text \<open>
  What the incremental replay of one pair has to leave in the store, given the tree the
  clone had checked out and the store's working tree before the pair: a commit under the
  \<open>[ignore]\<close> message whose tree is the update against the previous revision over the
  changed paths (against the checked-out tree over no path when the previous revision is
  the empty tree), then a commit under the visible message whose tree is the update of
  that tree against the current revision over the changed paths, with the manifests.
\<close>

definition catch_up_then_visible ::
  "('w, 't) replay_env \<Rightarrow> string list option \<Rightarrow> 'w \<Rightarrow> 't \<Rightarrow> string \<times> string option \<Rightarrow>
   string \<times> 't \<Rightarrow> string \<times> 't \<Rightarrow> bool" where
  "catch_up_then_visible env paths wt before pair c1 c2 =
     (case pair of (current_sha, prev0) \<Rightarrow>
        (let prev_sha = (case prev0 of
                           None \<Rightarrow> get_parent_or_empty env current_sha
                         | Some p \<Rightarrow> p);
             changed_files = remdups (diff_paths env current_sha prev_sha)
         in case run_update env (if prev_sha \<noteq> empty_sha then tree_of env prev_sha else wt)
                   (Some (if prev_sha \<noteq> empty_sha then changed_files else [])) paths before of
              Inl e \<Rightarrow> False
            | Inr t1 \<Rightarrow>
                c1 = (ignore_message current_sha, t1) \<and>
                (case run_update env (tree_of env current_sha) (Some changed_files) paths t1 of
                   Inl e \<Rightarrow> False
                 | Inr t2 \<Rightarrow>
                     c2 = (visible_message env current_sha,
                           write_manifests env current_sha t2))))"

fun replay_pairs ::
  "('w, 't) replay_env \<Rightarrow> bool \<Rightarrow> string list option \<Rightarrow> (string \<times> string option) list \<Rightarrow>
   'w \<times> 't stats_fs \<Rightarrow> error + (nat list \<times> 't stats_fs)" where
  "replay_pairs env incremental paths [] st = Inr ([], snd st)"
| "replay_pairs env incremental paths (pair # rest) st =
     (case replay_step env incremental paths st pair of
        Inl e \<Rightarrow> Inl e
      | Inr (cid, wt1, fs1) \<Rightarrow>
          (case replay_pairs env incremental paths rest (wt1, fs1) of
             Inl e \<Rightarrow> Inl e
           | Inr (cids, fs2) \<Rightarrow> Inr (cid # cids, fs2)))"

text \<open>
  The initial full analysis of a store without commits, unless the run is incremental:
  the parent of the first commit is materialized (\<open>reset\<close> to \<open>None\<close> leaves the clone at
  its head) and the result is committed.
\<close>

definition format_sha :: "string option \<Rightarrow> string" where
  "format_sha s = (case s of None \<Rightarrow> ''None'' | Some x \<Rightarrow> x)"

definition initial_commit ::
  "('w, 't) replay_env \<Rightarrow> bool \<Rightarrow> string list \<Rightarrow> 't stats_fs \<Rightarrow> error + ('w \<times> 't stats_fs)" where
  "initial_commit env incremental source_shas fs =
     (if \<not> incremental \<and> head_message fs = None
      then (case source_shas of
              [] \<Rightarrow> Inl StopIteration
            | first_sha # _ \<Rightarrow>
                (let prev_sha = get_parent_sha env first_sha;
                     wt = (case prev_sha of None \<Rightarrow> head_tree env | Some p \<Rightarrow> tree_of env p)
                 in case run_update env wt None None (work_tree fs) of
                      Inl e \<Rightarrow> Inl e
                    | Inr t \<Rightarrow>
                        Inr (wt, snd (fs_commit (fs\<lparr>work_tree := t\<rparr>)
                                        (format_sha prev_sha @ [CHR 0x0A] @
                                         ''Initial gradon commit'')))))
      else Inr (head_tree env, fs))"

definition prev_shas :: "('w, 't) replay_env \<Rightarrow> bool \<Rightarrow> string list \<Rightarrow> error + string option list" where
  "prev_shas env reversed source_shas =
     (if reversed then Inr (map Some (drop 1 source_shas) @ [None])
      else (case source_shas of
              [] \<Rightarrow> Inl StopIteration
            | first_sha # _ \<Rightarrow>
                Inr (Some (get_parent_or_empty env first_sha) # map Some source_shas)))"

definition generate_stats_fs_commits_for_source_commits ::
  "('w, 't) replay_env \<Rightarrow> 't stats_fs \<Rightarrow> string list \<Rightarrow> string list option \<Rightarrow> bool \<Rightarrow> bool \<Rightarrow>
   error + (nat list \<times> 't stats_fs)" where
  "generate_stats_fs_commits_for_source_commits env fs source_shas paths incremental reversed =
     (case initial_commit env incremental source_shas fs of
        Inl e \<Rightarrow> Inl e
      | Inr st \<Rightarrow>
          (case prev_shas env reversed source_shas of
             Inl e \<Rightarrow> Inl e
           | Inr prevs \<Rightarrow> replay_pairs env incremental paths (zip source_shas prevs) st))"

section \<open>Provenance lookup: \<open>get_rev_for_sha\<close>\<close>

text \<open>
  The callers pass the id of a source commit, a string of hexadecimal digits. For such
  an id \<open>git log --grep=^hexsha --oneline\<close> prints, newest first, the commits whose message
  has a line that starts with the id: git matches the pattern against each line of the
  message, and an id has no character that is special in a pattern. The answer is the
  first word of the output, the id of the newest such commit, or \<open>None\<close> when there is
  none. A string with other characters is a pattern of its own and outside the model.
\<close>

definition is_hex_id :: "string \<Rightarrow> bool" where
  "is_hex_id h \<longleftrightarrow> h \<noteq> [] \<and> list_all (\<lambda>c. c \<in> set ''0123456789abcdef'') h"

fun split_lines :: "string \<Rightarrow> string list" where
  "split_lines [] = [[]]"
| "split_lines (c # cs) =
     (if c = CHR 0x0A then [] # split_lines cs
      else (case split_lines cs of x # xs \<Rightarrow> (c # x) # xs | [] \<Rightarrow> [[c]]))"

definition grep_matches :: "string \<Rightarrow> string \<Rightarrow> bool" where
  "grep_matches hexsha message \<longleftrightarrow> (\<exists>l \<in> set (split_lines message). startswith l hexsha)"

definition get_rev_for_sha :: "'t stats_fs \<Rightarrow> string \<Rightarrow> nat option" where
  "get_rev_for_sha fs hexsha =
     (case filter (\<lambda>i. grep_matches hexsha (fst (commits fs ! i))) (rev [0..<length (commits fs)]) of
        [] \<Rightarrow> None
      | i # _ \<Rightarrow> Some i)"

text \<open>The first whitespace-delimited token of a message.\<close>

definition is_space :: "char \<Rightarrow> bool" where
  "is_space c \<longleftrightarrow> c \<in> {CHR '' '', CHR 0x09, CHR 0x0A, CHR 0x0B, CHR 0x0C, CHR 0x0D}"

definition first_token :: "string \<Rightarrow> string" where
  "first_token s = takeWhile (\<lambda>c. \<not> is_space c) (dropWhile is_space s)"

section \<open>Example inputs\<close>

definition lloc :: "int \<Rightarrow> (skey \<times> int) list" where
  "lloc n = [((''stats'', ''lloc''), n)]"

text \<open>A source tree with \<open>x.py\<close> in the root and \<open>a/y.py\<close>.\<close>

definition example_tree :: src_tree where
  "example_tree =
     [(''x.py'', SrcFile (Some (lloc 5, [(''foo'', ''A'', 5)]))),
      (''a'', SrcDir [(''y.py'', SrcFile (Some (lloc 4, [(''bar'', ''A'', 4)])))])]"

text \<open>The same tree after \<open>a/y.py\<close> has been deleted: \<open>x.py\<close> alone.\<close>

definition example_tree_x :: src_tree where
  "example_tree_x = [(''x.py'', SrcFile (Some (lloc 5, [(''foo'', ''A'', 5)])))]"

definition no_match :: "string \<Rightarrow> bool" where
  "no_match s = False"

definition empty_store :: file_system where
  "empty_store = \<lparr>files = [], dirs = []\<rparr>"

text \<open>The store that a full update leaves for a source tree with the single file \<open>x.py\<close>.\<close>

definition store_x :: file_system where
  "store_x =
     \<lparr>files = [([''x.py.stats.yaml''], StatsYaml (lloc 5)),
               ([''x.py.methods.yaml''], MethodsYaml [(''foo'', ''A'', 5)]),
               ([''TOTAL.stats.yaml''], StatsYaml (lloc 5)),
               ([''TOTAL_TEST.stats.yaml''], StatsYaml (lloc 0)),
               ([''TOTAL_NON_TEST.stats.yaml''], StatsYaml (lloc 5)),
               ([''SUBTREE_TOTAL.stats.yaml''], StatsYaml (lloc 5)),
               ([''SUBTREE_TOTAL_TEST.stats.yaml''], StatsYaml (lloc 0)),
               ([''SUBTREE_TOTAL_NON_TEST.stats.yaml''], StatsYaml (lloc 5))],
      dirs = [[]]\<rparr>"

text \<open>
  A source history of two commits: \<open>c1\<close> adds \<open>x.py\<close>, its child \<open>c2\<close> adds \<open>a/y.py\<close>.
  The updater is \<open>update\<close> on a \<open>FileSystem\<close> store, without test or ignore patterns.
\<close>

definition example_env :: "(src_tree, adapter) replay_env" where
  "example_env =
     \<lparr>parents_of = (\<lambda>sha. if sha = ''c2'' then [''c1''] else []),
      message_of = (\<lambda>sha. if sha = ''c1'' then ''first'' else ''second''),
      tree_of = (\<lambda>sha. if sha = ''c1'' then [(''x.py'', SrcFile (Some (lloc 5, [(''foo'', ''A'', 5)])))]
                       else example_tree),
      head_tree = example_tree,
      diff_paths = (\<lambda>current prev. if current = ''c1'' then [''x.py'', ''x.py'']
                                    else [''a/y.py'', ''a/y.py'']),
      run_update = (\<lambda>wt changed_files paths a.
                      map_sum id snd (update wt no_match a changed_files paths no_match)),
      write_manifests = (\<lambda>sha a.
                      a\<lparr>store := add_file (add_file (store a) ''LATEST_CHANGES.yaml'' OtherYaml)
                                     ''LATEST_CHANGES_TOTAL.yaml'' OtherYaml\<rparr>)\<rparr>"

text \<open>The same history, where the message of \<open>c2\<close> names \<open>c1\<close> at the start of a line.\<close>

definition example_env_citing :: "(src_tree, adapter) replay_env" where
  "example_env_citing =
     example_env\<lparr>message_of := (\<lambda>sha. if sha = ''c1'' then ''first''
                                        else ''fix'' @ [CHR 0x0A] @ ''c1 was wrong'')\<rparr>"

text \<open>The filter \<open>^SUBTREE_TOTAL\<close>, the default of the commands.\<close>

definition subtree_total_filter :: "string \<Rightarrow> bool" where
  "subtree_total_filter file \<longleftrightarrow> startswith file ''SUBTREE_TOTAL''"


definition fresh_stats_fs :: "adapter stats_fs" where
  "fresh_stats_fs = \<lparr>work_tree = new_adapter empty_store, commits = []\<rparr>"

section \<open>Well-formed stores\<close>



section \<open>A measure for the upward propagation\<close>

definition path_weight :: "string \<Rightarrow> nat" where
  "path_weight p = 2 * max 1 (length p) + (if p = ''.'' then 0 else 1)"

definition heap_weight :: "(int \<times> string) list \<Rightarrow> nat" where
  "heap_weight heap = sum_list (map (\<lambda>(n, p). path_weight p) heap)"

definition unfinished :: "(int \<times> string) list \<Rightarrow> string list \<Rightarrow> nat" where
  "unfinished heap finished = length (filter (\<lambda>(n, p). p \<notin> set finished) heap)"

section \<open>Termination of the upward propagation\<close>

text \<open>
  Every round of the loop of \<open>_aggregate_subtrees\<close> either drops a finished path from the
  heap or replaces a path by its parent. A parent is a shorter path, or \<open>.\<close>, or the path
  itself (for \<open>.\<close> and for a path of slashes), and then it is finished.
\<close>

lemma rstrip_slash_take: "\<exists>n. rstrip_slash h = take n h"
proof -
  let ?P = "\<lambda>c. c = CHR ''/''"
  have "h = rev (dropWhile ?P (rev h)) @ rev (takeWhile ?P (rev h))"
    by (metis rev_append rev_rev_ident takeWhile_dropWhile_id)
  then have "take (length (rev (dropWhile ?P (rev h)))) h = rev (dropWhile ?P (rev h))"
    by (metis append_eq_conv_conj)
  then show ?thesis unfolding rstrip_slash_def by metis
qed

lemma dirname_take: "\<exists>n. dirname p = take n p"
proof -
  obtain m where "rstrip_slash (take (rfind_slash_plus1 p) p) = take m (take (rfind_slash_plus1 p) p)"
    using rstrip_slash_take by blast
  then show ?thesis
    unfolding dirname_def Let_def by (metis take_take)
qed

lemma parent_path_weight:
  "path_weight (parent_path p) < path_weight p \<or> parent_path p = p"
proof (cases "dirname p = []")
  case True
  then show ?thesis
    by (cases p) (auto simp: parent_path_def path_weight_def)
next
  case False
  obtain n where n: "dirname p = take n p" using dirname_take by blast
  show ?thesis
  proof (cases "n < length p")
    case True
    with n False have "length (dirname p) < length p" "Suc 0 \<le> length (dirname p)"
      by (auto simp: Suc_le_eq)
    then show ?thesis using False
      by (auto simp: parent_path_def path_weight_def)
  next
    case False
    with n have "dirname p = p" by simp
    then show ?thesis using \<open>dirname p \<noteq> []\<close> by (simp add: parent_path_def)
  qed
qed

lemma heap_weight_heappush: "heap_weight (heappush heap p) = path_weight p + heap_weight heap"
  unfolding heap_weight_def heappush_def
  by (induction heap) auto

lemma heap_weight_Cons: "heap_weight ((n, p) # heap) = path_weight p + heap_weight heap"
  by (simp add: heap_weight_def)

lemma unfinished_heappush_finished:
  "p \<in> set finished \<Longrightarrow> unfinished (heappush heap p) finished = unfinished heap finished"
  unfolding unfinished_def heappush_def
  by (induction heap) auto

lemma unfinished_mono: "unfinished heap (finished @ [p]) \<le> unfinished heap finished"
  unfolding unfinished_def
  by (induction heap) auto

lemma path_weight_pos: "0 < path_weight p"
  by (simp add: path_weight_def)

termination aggregate_subtrees_loop
proof (relation "measures [\<lambda>(heap, finished, a). heap_weight heap,
                          \<lambda>(heap, finished, a). unfinished heap finished]", goal_cases)
  case 1
  then show ?case by simp
next
  case (2 n dir_path heap finished a)
  then show ?case using path_weight_pos[of dir_path] by (simp add: heap_weight_Cons)
next
  case (3 n dir_path heap finished a a1)
  from parent_path_weight[of dir_path] show ?case
  proof
    assume "path_weight (parent_path dir_path) < path_weight dir_path"
    then show ?thesis by (simp add: heap_weight_heappush heap_weight_Cons)
  next
    assume eq: "parent_path dir_path = dir_path"
    have "unfinished (heappush heap dir_path) (finished @ [dir_path])
          = unfinished heap (finished @ [dir_path])"
      by (rule unfinished_heappush_finished) simp
    also have "\<dots> \<le> unfinished heap finished" by (rule unfinished_mono)
    also have "\<dots> < unfinished ((n, dir_path) # heap) finished"
      using 3 by (simp add: unfinished_def)
    finally show ?thesis
      by (simp add: eq heap_weight_heappush heap_weight_Cons)
  qed
qed

section \<open>Replay: lemmas\<close>

subsection \<open>Replay: the commits of a run\<close>

lemma fs_commit_commits:
  "fs_commit fs m = (cid, fs') \<Longrightarrow> cid = length (commits fs) \<and> commits fs' = commits fs @ [(m, work_tree fs)]"
  by (auto simp: fs_commit_def)

lemma replay_step_commits:
  assumes "replay_step env incremental paths (wt, fs) (c, p) = Inr (cid, wt', fs')"
  shows "map fst (commits fs') =
           map fst (commits fs) @ (if incremental then [ignore_message c] else []) @ [visible_message env c]"
    and "cid = length (commits fs) + (if incremental then 1 else 0)"
  using assms
  by (auto simp: replay_step_def fs_commit_def Let_def split: sum.splits if_splits prod.splits)

lemma replay_pairs_commits:
  "replay_pairs env incremental paths pairs (wt, fs) = Inr (ids, fs') \<Longrightarrow>
   map fst (commits fs') =
     map fst (commits fs) @
     concat (map (\<lambda>c. (if incremental then [ignore_message c] else []) @ [visible_message env c])
                 (map fst pairs))"
proof (induction pairs arbitrary: wt fs ids)
  case Nil
  then show ?case by simp
next
  case (Cons pair rest)
  obtain c p where pair: "pair = (c, p)" by (cases pair)
  from Cons.prems obtain cid wt1 fs1 cids where
    step: "replay_step env incremental paths (wt, fs) (c, p) = Inr (cid, wt1, fs1)" and
    rest: "replay_pairs env incremental paths rest (wt1, fs1) = Inr (cids, fs')"
    by (auto simp: pair split: sum.splits prod.splits)
  from Cons.IH[OF rest] replay_step_commits(1)[OF step] show ?case
    by (simp add: pair)
qed

lemma map_fst_zip_le: "length xs \<le> length ys \<Longrightarrow> map fst (zip xs ys) = xs"
  by (induction xs arbitrary: ys) (auto simp: Suc_le_length_iff)

lemma replay_step_incremental:
  assumes "replay_step env True paths (wt, fs) pair = Inr (cid, wt', fs')"
  shows "\<exists>c1 c2. commits fs' = commits fs @ [c1, c2] \<and>
           catch_up_then_visible env paths wt (work_tree fs) pair c1 c2 \<and>
           work_tree fs' = snd c2 \<and> wt' = tree_of env (fst pair)"
proof -
  obtain cur prev0 where pair: "pair = (cur, prev0)" by (cases pair)
  define prev where "prev = (case prev0 of None \<Rightarrow> get_parent_or_empty env cur | Some p \<Rightarrow> p)"
  define changed where "changed = remdups (diff_paths env cur prev)"
  define u1 where "u1 = run_update env (if prev \<noteq> empty_sha then tree_of env prev else wt)
                          (Some (if prev \<noteq> empty_sha then changed else [])) paths (work_tree fs)"
  from assms have a: "(case (case u1 of Inl e \<Rightarrow> Inl e
                 | Inr t \<Rightarrow> Inr (snd (fs_commit (fs\<lparr>work_tree := t\<rparr>) (ignore_message cur)))) of
              Inl e \<Rightarrow> Inl e
            | Inr fs1 \<Rightarrow>
                (case run_update env (tree_of env cur) (Some changed) paths (work_tree fs1) of
                   Inl e \<Rightarrow> Inl e
                 | Inr t \<Rightarrow>
                     (case fs_commit (fs1\<lparr>work_tree := write_manifests env cur t\<rparr>)
                             (visible_message env cur) of
                        (cid, fs2) \<Rightarrow> Inr (cid, tree_of env cur, fs2)))) = Inr (cid, wt', fs')"
    unfolding replay_step_def pair prev_def changed_def u1_def Let_def by simp
  then obtain t1 where t1: "u1 = Inr t1" by (cases u1) auto
  define u2 where "u2 = run_update env (tree_of env cur) (Some changed) paths t1"
  from a t1 obtain t2 where t2: "u2 = Inr t2"
    by (cases u2) (auto simp: fs_commit_def u2_def)
  from a t1 t2 have c: "wt' = tree_of env cur"
    "commits fs' = commits fs @ [(ignore_message cur, t1),
                             (visible_message env cur, write_manifests env cur t2)]"
    "work_tree fs' = write_manifests env cur t2"
    by (auto simp: fs_commit_def u2_def)
  have d: "catch_up_then_visible env paths wt (work_tree fs) pair (ignore_message cur, t1)
             (visible_message env cur, write_manifests env cur t2)"
  proof -
    have "catch_up_then_visible env paths wt (work_tree fs) pair (ignore_message cur, t1)
             (visible_message env cur, write_manifests env cur t2)
          = (case u1 of Inl e \<Rightarrow> False
             | Inr t \<Rightarrow> (ignore_message cur, t1) = (ignore_message cur, t) \<and>
                 (case run_update env (tree_of env cur) (Some changed) paths t of
                    Inl e \<Rightarrow> False
                  | Inr t' \<Rightarrow> (visible_message env cur, write_manifests env cur t2)
                        = (visible_message env cur, write_manifests env cur t')))"
      unfolding catch_up_then_visible_def pair Let_def u1_def changed_def prev_def
      by (simp only: prod.case)
    also have "\<dots>" using t1 t2 by (simp add: u2_def)
    finally show ?thesis .
  qed
  from c d show ?thesis by (simp add: pair)
qed

lemma replay_pairs_incremental:
  "replay_pairs env True paths pairs (wt, fs) = Inr (ids, fs') \<Longrightarrow>
   \<exists>cs. commits fs' = commits fs @ cs \<and> length cs = 2 * length pairs \<and>
     (\<forall>k < length pairs.
        catch_up_then_visible env paths
          (if k = 0 then wt else tree_of env (fst (pairs ! (k - 1))))
          (if k = 0 then work_tree fs else snd (cs ! (2 * k - 1)))
          (pairs ! k) (cs ! (2 * k)) (cs ! (2 * k + 1)))"
proof (induction pairs arbitrary: wt fs ids)
  case Nil
  then show ?case by simp
next
  case (Cons pair rest)
  from Cons.prems obtain cid wt1 fs1 cids where
    step: "replay_step env True paths (wt, fs) pair = Inr (cid, wt1, fs1)" and
    rest: "replay_pairs env True paths rest (wt1, fs1) = Inr (cids, fs')"
    by (auto split: sum.splits prod.splits)
  from replay_step_incremental[OF step] obtain c1 c2 where
    s: "commits fs1 = commits fs @ [c1, c2]"
       "catch_up_then_visible env paths wt (work_tree fs) pair c1 c2"
       "work_tree fs1 = snd c2" "wt1 = tree_of env (fst pair)"
    by blast
  from Cons.IH[OF rest] obtain cs where
    r: "commits fs' = commits fs1 @ cs" "length cs = 2 * length rest"
       "\<forall>k < length rest.
          catch_up_then_visible env paths
            (if k = 0 then wt1 else tree_of env (fst (rest ! (k - 1))))
            (if k = 0 then work_tree fs1 else snd (cs ! (2 * k - 1)))
            (rest ! k) (cs ! (2 * k)) (cs ! (2 * k + 1))"
    by blast
  let ?cs = "c1 # c2 # cs"
  have a: "commits fs' = commits fs @ ?cs" using s(1) r(1) by simp
  have b: "length ?cs = 2 * length (pair # rest)" using r(2) by simp
  have c: "catch_up_then_visible env paths
          (if k = 0 then wt else tree_of env (fst ((pair # rest) ! (k - 1))))
          (if k = 0 then work_tree fs else snd (?cs ! (2 * k - 1)))
          ((pair # rest) ! k) (?cs ! (2 * k)) (?cs ! (2 * k + 1))"
    if k: "k < length (pair # rest)" for k
  proof (cases k)
    case 0
    then show ?thesis using s(2) by simp
  next
    case (Suc j)
    then have j: "j < length rest" using k by simp
    note rj = r(3)[rule_format, OF j]
    show ?thesis
    proof (cases j)
      case 0
      with rj s(3,4) Suc show ?thesis by simp
    next
      case (Suc i)
      have e1: "2 * Suc (Suc i) - 1 = Suc (Suc (2 * Suc i - 1))" by simp
      from rj show ?thesis unfolding \<open>k = Suc j\<close> Suc
        by (simp add: e1)
    qed
  qed
  from a b c show ?case by blast
qed

subsection \<open>Replay: the example run\<close>

lemma example_replay_two_runs:
  "\<not> isl (generate_stats_fs_commits_for_source_commits example_env fresh_stats_fs
            [''c1'', ''c2''] None True False)"
  by code_simp

lemma example_prev_shas:
  "prev_shas example_env False [''c1'', ''c2''] = Inr [Some empty_sha, Some ''c1'', Some ''c2'']"
  by code_simp


section \<open>Series arithmetic: lemmas\<close>

lemma zero_series_keys: "map fst (zero_series s) = map fst s"
  by (induction s) (auto simp: zero_series_def)

lemma zero_series_values: "\<forall>v \<in> snd ` set (zero_series s). v = 0"
  by (auto simp: zero_series_def)

lemma map_of_to_nseries: "map_of (to_nseries a) k = map_option Some (map_of a k)"
  by (induction a) (auto simp: to_nseries_def)

lemma map_of_tabulate: "map_of (map (\<lambda>k. (k, g k)) ks) k = (if k \<in> set ks then Some (g k) else None)"
  by (induction ks) auto

lemma set_union_keys: "set (union_keys a b) = fst ` set a \<union> fst ` set b"
  by (simp add: union_keys_def)

lemma map_of_series_mul:
  "map_of (series_mul s n) k = map_option (map_option (\<lambda>x. x * n)) (map_of s k)"
  by (induction s) (auto simp: series_mul_def)

lemma delta_value:
  assumes "map_of a k = Some x" "map_of b k = Some y"
  shows "map_of (series_mul (series_minus (to_nseries a) (to_nseries b)) n) k
         = Some (Some ((x - y) * n))"
proof -
  have "k \<in> fst ` set a" using assms(1) by (metis map_of_eq_None_iff option.distinct(1))
  moreover have "fst ` set (to_nseries a) = fst ` set a"
    by (force simp: to_nseries_def)
  ultimately have "k \<in> set (union_keys (to_nseries a) (to_nseries b))"
    by (simp add: set_union_keys)
  then show ?thesis
    using assms
    by (simp add: map_of_series_mul series_minus_def nseries_op_def map_of_tabulate
          map_of_to_nseries)
qed

lemma changed_pair_of_entry:
  "endswith (if a_path e \<noteq> [] then a_path e else b_path e) stats_ext \<Longrightarrow>
   generate_changed_files [e] =
     [(if new_file e then None else Some (a_path e), if deleted_file e then None else Some (b_path e))]"
  by (simp add: generate_changed_files_def)

section \<open>Paths: lemmas\<close>

lemma split_slash_ne: "split_slash p \<noteq> []"
  by (induction p) (auto split: list.splits)

lemma split_slash_append: "split_slash (a @ CHR ''/'' # b) = split_slash a @ split_slash b"
proof (induction a)
  case Nil
  then show ?case by simp
next
  case (Cons c a)
  obtain y ys where y: "split_slash a = y # ys"
    using split_slash_ne[of a] by (cases "split_slash a") auto
  show ?case using Cons y by simp
qed

lemma split_slash_no_slash: "CHR ''/'' \<notin> set n \<Longrightarrow> split_slash n = [n]"
  by (induction n) auto

lemma resolve_append_slash: "resolve (a @ CHR ''/'' # b) = resolve a @ resolve b"
  by (simp add: resolve_def split_slash_append)

lemma resolve_Nil: "resolve [] = []"
  by (simp add: resolve_def)

lemma resolve_name:
  "CHR ''/'' \<notin> set n \<Longrightarrow> n \<noteq> [] \<Longrightarrow> n \<noteq> ''.'' \<Longrightarrow> resolve n = [n]"
  by (simp add: resolve_def split_slash_no_slash)

lemma startswith_slash: "startswith b ''/'' \<longleftrightarrow> (\<exists>r. b = CHR ''/'' # r)"
  by (cases b) (auto simp: startswith_def)

lemma endswith_slash: "endswith a ''/'' \<longleftrightarrow> (\<exists>r. a = r @ ''/'')"
proof
  assume "endswith a ''/''"
  then have "a = take (length a - 1) a @ ''/''"
    by (metis append_take_drop_id endswith_def length_Cons list.size(3) One_nat_def)
  then show "\<exists>r. a = r @ ''/''" by blast
next
  assume "\<exists>r. a = r @ ''/''"
  then show "endswith a ''/''" by (auto simp: endswith_def)
qed

lemma resolve_path_join:
  assumes "\<not> startswith b ''/''"
  shows "resolve (path_join a b) = resolve a @ resolve b"
proof (cases "a = [] \<or> endswith a ''/''")
  case True
  then show ?thesis
  proof
    assume "a = []"
    then show ?thesis using assms by (simp add: path_join_def resolve_Nil)
  next
    assume "endswith a ''/''"
    then obtain r where r: "a = r @ ''/''" using endswith_slash by blast
    have "resolve (r @ CHR ''/'' # b) = resolve r @ resolve b" by (rule resolve_append_slash)
    moreover have "resolve (r @ CHR ''/'' # []) = resolve r @ resolve []"
      by (rule resolve_append_slash)
    ultimately show ?thesis using assms \<open>endswith a ''/''\<close>
      by (simp add: path_join_def r resolve_Nil)
  qed
next
  case False
  then show ?thesis using assms
    by (simp add: path_join_def resolve_append_slash)
qed

lemma path_join_append:
  assumes "\<not> startswith b ''/''" "\<not> startswith (b @ s) ''/''"
  shows "path_join a b @ s = path_join a (b @ s)"
  using assms by (simp add: path_join_def)

lemma no_slash_not_startswith: "CHR ''/'' \<notin> set n \<Longrightarrow> \<not> startswith (n @ s) ''/'' \<or> n = []"
  by (cases n) (auto simp: startswith_slash)

lemma stats_key:
  assumes "CHR ''/'' \<notin> set n"
  shows "resolve (path_join dir n @ stats_ext) = resolve dir @ [n @ stats_ext]"
proof -
  have a: "\<not> startswith n ''/''" using assms by (auto simp: startswith_slash)
  have b: "\<not> startswith (n @ stats_ext) ''/''"
    using assms by (cases n) (auto simp: startswith_slash stats_ext_def)
  have c: "CHR ''/'' \<notin> set (n @ stats_ext)" using assms by (simp add: stats_ext_def)
  have d: "n @ stats_ext \<noteq> []" "n @ stats_ext \<noteq> ''.''" by (auto simp: stats_ext_def)
  have "resolve (path_join dir n @ stats_ext) = resolve (path_join dir (n @ stats_ext))"
    using path_join_append[OF a b] by simp
  also have "\<dots> = resolve dir @ resolve (n @ stats_ext)" by (rule resolve_path_join[OF b])
  also have "resolve (n @ stats_ext) = [n @ stats_ext]" by (rule resolve_name[OF c d])
  finally show ?thesis .
qed






section \<open>The store: lemmas\<close>


lemma fs_read_fs_rm:
  "fs_read (fs_rm fs p) q = (if resolve q = resolve p then None else fs_read fs q)"
  by (simp add: fs_read_def fs_rm_def delete_conv')

lemma files_fs_rmdir: "files (fs_rmdir fs p) = files fs"
  by (simp add: fs_rmdir_def Let_def)

lemma dirs_fs_rm: "dirs (fs_rm fs p) = dirs fs"
  by (simp add: fs_rm_def)

lemma store_cached_get: "store (snd (cached_get a p)) = store a"
  by (simp add: cached_get_def Let_def split: option.splits)

lemma fs_read_cached_rm:
  "fs_read (store (cached_rm a p)) q =
     (if resolve q = resolve (p @ stats_ext) then None else fs_read (store a) q)"
  by (simp add: cached_rm_def adapter_rm_def fs_read_fs_rm)

lemma dirs_cached_rm: "dirs (store (cached_rm a p)) = dirs (store a)"
  by (simp add: cached_rm_def adapter_rm_def dirs_fs_rm)


lemma fs_read_remove_stats_file:
  "fs_read (store (remove_stats_file a dir_path name)) q =
     (if resolve q = resolve (path_join dir_path name @ stats_ext) then None
      else fs_read (store a) q)"
  by (simp add: remove_stats_file_def fs_read_cached_rm)

lemma load_subtotals_store:
  "load_subtotals a ps stats found = (stats', found', a') \<Longrightarrow> store a' = store a"
proof (induction ps arbitrary: a stats found)
  case Nil
  then show ?case by simp
next
  case (Cons p ps)
  obtain r a1 where g: "cached_get a (join_parts p) = (r, a1)" by (cases "cached_get a (join_parts p)")
  then have s1: "store a1 = store a" using store_cached_get[of a "join_parts p"] by simp
  show ?case
  proof (cases r)
    case None
    with Cons.prems g have "load_subtotals a1 ps stats found = (stats', found', a')" by simp
    from Cons.IH[OF this] s1 show ?thesis by simp
  next
    case (Some x)
    with Cons.prems g have
      "load_subtotals a1 ps (stats @ [x]) (List.insert (butlast (tl p)) found) = (stats', found', a')"
      by simp
    from Cons.IH[OF this] s1 show ?thesis by simp
  qed
qed

text \<open>An aggregate directory without records.\<close>

lemma aggregate_dir_no_records:
  assumes "py_stats_files a dir_path = []"
  shows "aggregate_dir is_test a dir_path =
           Inr (fold (\<lambda>name b. remove_stats_file b dir_path name)
                  [''TOTAL'', ''TOTAL_TEST'', ''TOTAL_NON_TEST''] a)"
  using assms by (simp add: aggregate_dir_def)

lemma totals_removed:
  assumes "name \<in> set total_names"
  shows "fs_read (store (fold (\<lambda>name b. remove_stats_file b dir_path name)
                  [''TOTAL'', ''TOTAL_TEST'', ''TOTAL_NON_TEST''] a))
           (path_join dir_path name @ stats_ext) = None"
  using assms by (auto simp: total_names_def fs_read_remove_stats_file)

section \<open>Subtree records: lemmas\<close>

lemma endswith_append: "endswith (a @ b) b"
  by (simp add: endswith_def)

lemma subtree_name_strings:
  assumes "name \<in> set total_names"
  shows "str_remove_all stats_ext ((''SUBTREE_'' @ name) @ stats_ext) = ''SUBTREE_'' @ name"
    and "\<not> endswith (''SUBTREE_'' @ name) ''.py''"
    and "CHR ''/'' \<notin> set (''SUBTREE_'' @ name)"
proof -
  from assms consider "name = ''TOTAL''" | "name = ''TOTAL_TEST''" | "name = ''TOTAL_NON_TEST''"
    by (auto simp: total_names_def)
  then show "str_remove_all stats_ext ((''SUBTREE_'' @ name) @ stats_ext) = ''SUBTREE_'' @ name"
  proof cases
    case 1
    show ?thesis unfolding 1 by code_simp
  next
    case 2
    show ?thesis unfolding 2 by code_simp
  next
    case 3
    show ?thesis unfolding 3 by code_simp
  qed
  from assms show "\<not> endswith (''SUBTREE_'' @ name) ''.py''"
    by (auto simp: total_names_def endswith_def)
  from assms show "CHR ''/'' \<notin> set (''SUBTREE_'' @ name)"
    by (auto simp: total_names_def)
qed

lemma map_of_in_keys: "map_of al k = Some v \<Longrightarrow> k \<in> set (map fst al)"
  by (metis map_of_eq_None_iff option.distinct(1) set_map)

text \<open>A stats file of a directory is listed by the adapter.\<close>

lemma stats_file_listed:
  assumes rd: "fs_read fs (path_join dir_path n @ stats_ext) = Some c"
    and dir: "resolve dir_path \<in> set (dirs fs)"
    and n: "CHR ''/'' \<notin> set n"
  shows "str_remove_all stats_ext (n @ stats_ext) \<in> set (adapter_ls fs dir_path)"
proof -
  let ?k = "resolve dir_path @ [n @ stats_ext]"
  have "map_of (files fs) ?k = Some c"
    using rd by (simp add: fs_read_def stats_key[OF n])
  then have "?k \<in> set (map fst (files fs))" by (rule map_of_in_keys)
  then have "?k \<in> set (filter (\<lambda>k. k \<noteq> [] \<and> butlast k = resolve dir_path) (map fst (files fs) @ dirs fs))"
    by simp
  then have "last ?k \<in> set (entry_names fs (resolve dir_path))"
    unfolding entry_names_def by (metis (no_types, lifting) image_eqI set_map)
  then have "n @ stats_ext \<in> set (ls_files fs dir_path)"
    using dir by (simp add: ls_files_def fs_exists_def)
  then have "n @ stats_ext \<in> set (filter (\<lambda>f. endswith f stats_ext) (ls_files fs dir_path))"
    by (simp add: endswith_append)
  then show ?thesis
    unfolding adapter_ls_def by (metis (no_types, lifting) image_eqI set_map)
qed

lemma stats_dirs_exists: "stats_dirs a dir_path = Inr subdirs \<Longrightarrow> resolve dir_path \<in> set (dirs (store a))"
  by (auto simp: stats_dirs_def ls_dirs_def split: if_splits)

text \<open>A round of the loop over the names that finds no contribution.\<close>

lemma empty_round_removes_subtree_record:
  assumes dirs: "stats_dirs a dir_path = Inr subdirs"
    and name: "name \<in> set total_names"
    and empty: "fst (load_subtotals a (subtotal_paths dir_path subdirs name) [] found_stats) = []"
  shows "(case subtree_totals dir_path subdirs (non_py_stats_files a dir_path) [name] found_stats a of
            Inl e \<Rightarrow> False
          | Inr (found1, a2) \<Rightarrow>
              fs_read (store a2) (path_join dir_path (''SUBTREE_'' @ name) @ stats_ext) = None)"
proof -
  obtain found1 a1 where l: "load_subtotals a (subtotal_paths dir_path subdirs name) [] found_stats
                               = ([], found1, a1)"
    using empty by (cases "load_subtotals a (subtotal_paths dir_path subdirs name) [] found_stats") auto
  have s1: "store a1 = store a" by (rule load_subtotals_store[OF l])
  note strs = subtree_name_strings[OF name]
  show ?thesis
  proof (cases "''SUBTREE_'' @ name \<in> set (non_py_stats_files a dir_path)")
    case True
    then show ?thesis
      using l by (simp add: fs_read_remove_stats_file)
  next
    case False
    have "fs_read (store a) (path_join dir_path (''SUBTREE_'' @ name) @ stats_ext) = None"
    proof (rule ccontr)
      assume "fs_read (store a) (path_join dir_path (''SUBTREE_'' @ name) @ stats_ext) \<noteq> None"
      then obtain c where "fs_read (store a) (path_join dir_path (''SUBTREE_'' @ name) @ stats_ext) = Some c"
        by auto
      from stats_file_listed[OF this stats_dirs_exists[OF dirs] strs(3)]
      have "''SUBTREE_'' @ name \<in> set (adapter_ls (store a) dir_path)"
        using strs(1) by simp
      then have "''SUBTREE_'' @ name \<in> set (non_py_stats_files a dir_path)"
        using strs(2) by (simp add: non_py_stats_files_def)
      with False show False by simp
    qed
    then show ?thesis using l False s1 by simp
  qed
qed

section \<open>Failed analyses: lemmas\<close>

subsection \<open>A failed file is passed over\<close>










subsection \<open>Stores stay well-formed\<close>















subsection \<open>What a visit leaves alone\<close>







subsection \<open>The totals of a directory\<close>







subsection \<open>The failed file alone\<close>



section \<open>The caching adapter against the plain adapter\<close>

text \<open>
  C10. The caching adapter should answer every \<open>get\<close> as the plain adapter does on the
  same store, and a \<open>get\<close> after \<open>rm\<close> of the same path should find nothing. \<open>get\<close> and
  \<open>set\<close> normalize the path before they use the cache, \<open>rm\<close> does not: after
  \<open>set('./a', v)\<close> and \<open>rm('./a')\<close> the file is gone from the store, the plain adapter
  answers \<open>None\<close>, and the caching adapter still answers \<open>v\<close>.
\<close>

theorem cached_get_after_rm_returns_removed_value:
  "fst (cached_get (cached_rm (cached_set (new_adapter empty_store) ''./a'' (lloc 5)) ''./a'') ''./a'')
     = Some (lloc 5)
   \<and> store (cached_rm (cached_set (new_adapter empty_store) ''./a'' (lloc 5)) ''./a'')
     = adapter_rm (adapter_set empty_store ''./a'' (lloc 5)) ''./a''
   \<and> adapter_get (adapter_rm (adapter_set empty_store ''./a'' (lloc 5)) ''./a'') ''./a'' = None"
  by code_simp

section \<open>Records of files that are gone\<close>

text \<open>
  C6. When a recorded file no longer exists in the source tree and is named in the
  changed files, \<open>update\<close> should remove its stats record and its method list. On the
  store \<open>store_x\<close> with an empty source tree and \<open>x.py\<close> changed, the stats record and
  the aggregates are removed, and the method list \<open>x.py.methods.yaml\<close> stays: it is the
  only file left.
\<close>

theorem update_keeps_method_list_of_deleted_file:
  "map_sum id (\<lambda>(dirty_dirs, a). (dirty_dirs, files (store a)))
     (update [] no_match (new_adapter store_x) (Some [''x.py'']) None no_match)
   = Inr ([''.''], [([''x.py.methods.yaml''], MethodsYaml [(''foo'', ''A'', 5)])])"
  by code_simp

section \<open>The order of the upward propagation\<close>

text \<open>
  C2. In \<open>_aggregate_subtrees\<close> every directory should be processed before its parent.
  The heap orders the paths by the length of their names, and the root \<open>.\<close> is as long
  as a directory \<open>a\<close> below it and smaller as a string: after the visits of the full
  update of \<open>example_tree\<close> both are dirty, and the root is processed first, its child
  \<open>a\<close> after it.
\<close>

theorem root_is_processed_before_its_child:
  "(case visit_dirs example_tree no_match None no_match
           (generate_dirs_and_files example_tree None) [] (new_adapter empty_store) of
      Inl e \<Rightarrow> Inl e
    | Inr (dirty_dirs, a) \<Rightarrow>
        map_sum id (\<lambda>(finished_paths, b). (dirty_dirs, finished_paths))
          (aggregate_subtrees a dirty_dirs))
   = Inr ([''.'', ''a''], [''.'', ''a''])
   \<and> parent_path ''a'' = ''.''"
  by code_simp

section \<open>The aggregates after an update\<close>

text \<open>
  C1. After an update, the \<open>SUBTREE_TOTAL\<close> of a directory with records should be its own
  \<open>TOTAL\<close> plus the \<open>SUBTREE_TOTAL\<close> of its subdirectories with data. After the full update
  of \<open>example_tree\<close> into an empty store, the root has \<open>TOTAL\<close> 5, its subdirectory \<open>a\<close> has
  \<open>SUBTREE_TOTAL\<close> 4, and the root's \<open>SUBTREE_TOTAL\<close> is 5, not their sum 9.
\<close>

theorem root_subtree_total_misses_subdirectory:
  "map_sum id
     (\<lambda>(dirty_dirs, a).
        (adapter_get (store a) ''./x.py'', adapter_get (store a) ''./TOTAL'',
         adapter_get (store a) ''./a/SUBTREE_TOTAL'', adapter_get (store a) ''./SUBTREE_TOTAL''))
     (update example_tree no_match (new_adapter empty_store) None None no_match)
   = Inr (Some (lloc 5), Some (lloc 5), Some (lloc 4), Some (lloc 5))
   \<and> sum_series [lloc 4, lloc 5] = Some (to_nseries (lloc 9))"
  by code_simp

text \<open>
  C3. A second full update with an unchanged source tree should leave the store as the
  first one left it. For \<open>example_tree\<close> the second run finds the subtree total of \<open>a\<close>
  that the first run wrote too late, and the root's \<open>SUBTREE_TOTAL\<close> changes from 5 to 9.
\<close>

theorem second_full_update_changes_the_store:
  "(case update example_tree no_match (new_adapter empty_store) None None no_match of
      Inl e \<Rightarrow> Inl e
    | Inr (dirty1, a1) \<Rightarrow>
        (case update example_tree no_match a1 None None no_match of
           Inl e \<Rightarrow> Inl e
         | Inr (dirty2, a2) \<Rightarrow>
             Inr (fs_read (store a1) ''SUBTREE_TOTAL.stats.yaml'',
                  fs_read (store a2) ''SUBTREE_TOTAL.stats.yaml'')))
   = Inr (Some (StatsYaml (lloc 5)), Some (StatsYaml (lloc 9)))"
  by code_simp

section \<open>Catch-up commits of an incremental replay\<close>

text \<open>
  C4, as stated: a catch-up commit is made only for a pair that starts a range and does
  not follow the store's head. The incremental replay of \<open>c1\<close> and its child \<open>c2\<close> into
  a fresh store commits \<open>[ignore] c2\<close> although the head of the store is then the
  visible commit of \<open>c1\<close>, the previous commit of the pair.
\<close>

theorem catch_up_commit_although_head_matches:
  "map_sum id (\<lambda>(ids, fs). (ids, map fst (commits fs)))
     (generate_stats_fs_commits_for_source_commits example_env fresh_stats_fs [''c1'', ''c2'']
        None True False)
   = Inr ([1, 3], [ignore_message ''c1'', visible_message example_env ''c1'',
                   ignore_message ''c2'', visible_message example_env ''c2''])
   \<and> first_token (visible_message example_env ''c1'') = ''c1''
   \<and> parents_of example_env ''c2'' = [''c1'']"
  by code_simp

text \<open>
  C4, amended: in an incremental replay every pair gets a catch-up commit, also a pair
  whose previous commit is the head of the store. A run that returns leaves the commits
  the store had in place and appends, for the pair of each source commit in turn, two
  commits: one under \<open>[ignore] <current id>\<close> whose tree is the store updated against
  the previous revision over the changed paths (against the tree the clone has checked
  out, over no path, when the previous revision is the empty tree), then one under the
  visible message whose tree is that tree updated against the current revision over the
  changed paths, with the manifests. The update of each pair starts from the tree of the
  commit before it, and from the working tree of the store for the first pair.
\<close>

theorem catch_up_commit_for_every_pair:
  assumes run: "generate_stats_fs_commits_for_source_commits env fs source_shas paths True reversed
                  = Inr (ids, fs')"
    and prevs: "prev_shas env reversed source_shas = Inr prevs"
  shows "map fst (commits fs') =
           map fst (commits fs) @
           concat (map (\<lambda>c. [ignore_message c, visible_message env c]) source_shas) \<and>
         take (length (commits fs)) (commits fs') = commits fs \<and>
         (\<forall>k < length source_shas.
            catch_up_then_visible env paths
              (if k = 0 then head_tree env else tree_of env (source_shas ! (k - 1)))
              (if k = 0 then work_tree fs
               else snd (commits fs' ! (length (commits fs) + 2 * k - 1)))
              (source_shas ! k, prevs ! k)
              (commits fs' ! (length (commits fs) + 2 * k))
              (commits fs' ! (length (commits fs) + 2 * k + 1)))"
proof -
  from run prevs have r: "replay_pairs env True paths (zip source_shas prevs) (head_tree env, fs)
                            = Inr (ids, fs')"
    by (auto simp: generate_stats_fs_commits_for_source_commits_def initial_commit_def
             split: sum.splits)
  from prevs have len: "length source_shas \<le> length prevs"
    by (auto simp: prev_shas_def split: if_splits list.splits)
  then have fstz: "map fst (zip source_shas prevs) = source_shas" by (rule map_fst_zip_le)
  have lz: "length (zip source_shas prevs) = length source_shas" using len by simp
  from replay_pairs_incremental[OF r] obtain cs where
    cs: "commits fs' = commits fs @ cs" "length cs = 2 * length (zip source_shas prevs)"
        "\<forall>k < length (zip source_shas prevs).
          catch_up_then_visible env paths
            (if k = 0 then head_tree env else tree_of env (fst (zip source_shas prevs ! (k - 1))))
            (if k = 0 then work_tree fs else snd (cs ! (2 * k - 1)))
            (zip source_shas prevs ! k) (cs ! (2 * k)) (cs ! (2 * k + 1))"
    by blast
  have m: "map fst (commits fs') =
           map fst (commits fs) @
           concat (map (\<lambda>c. [ignore_message c, visible_message env c]) source_shas)"
    using replay_pairs_commits[OF r] fstz by simp
  have t: "take (length (commits fs)) (commits fs') = commits fs" using cs(1) by simp
  have u: "catch_up_then_visible env paths
              (if k = 0 then head_tree env else tree_of env (source_shas ! (k - 1)))
              (if k = 0 then work_tree fs
               else snd (commits fs' ! (length (commits fs) + 2 * k - 1)))
              (source_shas ! k, prevs ! k)
              (commits fs' ! (length (commits fs) + 2 * k))
              (commits fs' ! (length (commits fs) + 2 * k + 1))"
    if k: "k < length source_shas" for k
  proof -
    have kz: "k < length (zip source_shas prevs)" using k lz by simp
    note c = cs(3)[rule_format, OF kz]
    have z: "zip source_shas prevs ! k = (source_shas ! k, prevs ! k)"
      using k len by simp
    have z1: "fst (zip source_shas prevs ! (k - 1)) = source_shas ! (k - 1)"
      using k len by simp
    have n1: "commits fs' ! (length (commits fs) + 2 * k) = cs ! (2 * k)"
      by (simp add: cs(1))
    have n2: "commits fs' ! (length (commits fs) + 2 * k + 1) = cs ! (2 * k + 1)"
      by (simp add: cs(1) nth_append)
    have n3: "commits fs' ! (length (commits fs) + 2 * k - 1) = cs ! (2 * k - 1)" if "k \<noteq> 0"
    proof -
      have "length (commits fs) + 2 * k - 1 = length (commits fs) + (2 * k - 1)"
        using that by simp
      then show ?thesis by (simp add: cs(1))
    qed
    show ?thesis
    proof (cases "k = 0")
      case True
      with c z n1 n2 show ?thesis by simp
    next
      case False
      with c z z1 n1 n2 n3 show ?thesis by simp
    qed
  qed
  from m t u show ?thesis by blast
qed

theorem catch_up_commit_for_every_pair_witness:
  "map fst (commits (snd (projr (generate_stats_fs_commits_for_source_commits
                                  example_env fresh_stats_fs [''c1'', ''c2''] None True False))))
   = [ignore_message ''c1'', visible_message example_env ''c1'',
      ignore_message ''c2'', visible_message example_env ''c2'']
   \<and> catch_up_then_visible example_env None (tree_of example_env ''c1'')
        (snd (commits (snd (projr (generate_stats_fs_commits_for_source_commits
                                  example_env fresh_stats_fs [''c1'', ''c2''] None True False))) ! 1))
        (''c2'', Some ''c1'')
        (commits (snd (projr (generate_stats_fs_commits_for_source_commits
                                  example_env fresh_stats_fs [''c1'', ''c2''] None True False))) ! 2)
        (commits (snd (projr (generate_stats_fs_commits_for_source_commits
                                  example_env fresh_stats_fs [''c1'', ''c2''] None True False))) ! 3)"
proof -
  let ?R = "generate_stats_fs_commits_for_source_commits example_env fresh_stats_fs
              [''c1'', ''c2''] None True False"
  have r: "?R = Inr (fst (projr ?R), snd (projr ?R))"
    using example_replay_two_runs by (simp add: sum.collapse(2))
  note t = catch_up_commit_for_every_pair[OF r example_prev_shas]
  have m: "map fst (commits (snd (projr ?R)))
           = [ignore_message ''c1'', visible_message example_env ''c1'',
              ignore_message ''c2'', visible_message example_env ''c2'']"
    using t[THEN conjunct1] by (simp add: fresh_stats_fs_def)
  have k: "(1::nat) < length [''c1'', ''c2'']" by simp
  have u: "catch_up_then_visible example_env None (tree_of example_env ''c1'')
        (snd (commits (snd (projr ?R)) ! 1)) (''c2'', Some ''c1'')
        (commits (snd (projr ?R)) ! 2) (commits (snd (projr ?R)) ! 3)"
    using t[THEN conjunct2, THEN conjunct2, rule_format, OF k]
    by (simp add: fresh_stats_fs_def numeral_2_eq_2 numeral_3_eq_3)
  from m u show ?thesis by (rule conjI)
qed

section \<open>Provenance of the snapshot commits\<close>

text \<open>
  C9. The lookup by a source commit id should return the snapshot commit that encodes
  that id. In the replay of \<open>c1\<close> and \<open>c2\<close>, where the message of \<open>c2\<close> has a line that
  starts with \<open>c1\<close>, the lookup of \<open>c1\<close> returns commit 3, whose first token is \<open>c2\<close>;
  the snapshot commit of \<open>c1\<close> is commit 1.
\<close>

theorem lookup_returns_commit_of_another_id:
  "is_hex_id ''c1'' \<and>
   map_sum id (\<lambda>(ids, fs). (ids, map fst (commits fs), get_rev_for_sha fs ''c1'',
                               map_option (\<lambda>i. first_token (fst (commits fs ! i)))
                                 (get_rev_for_sha fs ''c1'')))
     (generate_stats_fs_commits_for_source_commits example_env_citing fresh_stats_fs
        [''c1'', ''c2''] None True False)
   = Inr ([1, 3], [ignore_message ''c1'', visible_message example_env_citing ''c1'',
                   ignore_message ''c2'', visible_message example_env_citing ''c2''],
          Some 3, Some ''c2'')"
  by code_simp

section \<open>Directories without records\<close>

text \<open>
  C8. A subdirectory that contributes nothing to the subtree sums should be pruned and
  no longer be listed. After a full update on the tree with \<open>x.py\<close> and \<open>a/y.py\<close>, the
  file \<open>a/y.py\<close> is deleted and \<open>update\<close> is run with it as the changed file: the record
  of \<open>y.py\<close>, the three \<open>TOTAL*\<close> and the three \<open>SUBTREE_TOTAL*\<close> records of \<open>a\<close> are
  removed, the method list \<open>a/y.py.methods.yaml\<close> stays, and so \<open>rmdir\<close> leaves \<open>a\<close>
  in place: the root still lists it.
\<close>

theorem emptied_directory_is_still_listed:
  "(case update example_tree no_match (new_adapter empty_store) None None no_match of
      Inl e \<Rightarrow> Inl e
    | Inr (dirty1, a1) \<Rightarrow>
        (case update example_tree_x no_match a1 (Some [''a/y.py'']) None no_match of
           Inl e \<Rightarrow> Inl e
         | Inr (dirty2, a2) \<Rightarrow>
             Inr (ls_files (store a1) ''a'', ls_files (store a2) ''a'',
                  ls_dirs (store a2) ''.'')))
   = Inr ([''y.py.stats.yaml'', ''y.py.methods.yaml'', ''TOTAL.stats.yaml'',
           ''TOTAL_TEST.stats.yaml'', ''TOTAL_NON_TEST.stats.yaml'',
           ''SUBTREE_TOTAL.stats.yaml'', ''SUBTREE_TOTAL_TEST.stats.yaml'',
           ''SUBTREE_TOTAL_NON_TEST.stats.yaml''],
          [''y.py.methods.yaml''], Inr [''a''])"
  by code_simp

section \<open>The records of the Delta Reconstructor\<close>

text \<open>
  C7, as stated: one record is emitted for each distinct path of a changed pair. With
  the filter \<open>^SUBTREE_TOTAL\<close>, the rename of \<open>a.py.stats.yaml\<close> to \<open>b.py.stats.yaml\<close>
  gives no record, whichever of the two paths the set yields first.
\<close>

theorem rename_under_filter_gives_no_record:
  "stats_for_change True (\<lambda>p. lloc 5) (\<lambda>p. lloc 7) [] (Some subtree_total_filter) no_match
     ''c1'' (Some ''a.py.stats.yaml'', Some ''b.py.stats.yaml'') = Inr []
   \<and> stats_for_change False (\<lambda>p. lloc 5) (\<lambda>p. lloc 7) [] (Some subtree_total_filter) no_match
     ''c1'' (Some ''a.py.stats.yaml'', Some ''b.py.stats.yaml'') = Inr []"
  by (simp add: stats_for_change_def load_side_def stats_rows_def List.map_filter_simps
        passes_filters_def subtree_total_filter_def startswith_def Let_def)

text \<open>
  C7, amended: for a changed pair of record paths the before and after values are
  loaded, a missing side being the zero series of the other side (same keys, all
  values 0), and the difference is \<open>after - before\<close>: at a key that both sides have, the
  delta of a row is the difference of the two values times the sign of the row. There is
  one row for each distinct path of the pair that is not \<open>None\<close> and that passes the
  filters (every path when no filter is given): for an added file the new path with sign
  \<open>+1\<close>, for a deleted file the old path with sign \<open>-1\<close>, for a rename the old path with
  \<open>-1\<close> and the new path with \<open>+1\<close>, in either order, for a modified file its path with
  \<open>+1\<close>.
\<close>

theorem delta_records_of_a_changed_pair:
  assumes "s \<noteq> []" "d \<noteq> []" "s \<noteq> d"
  shows
    "map_sum id (map (\<lambda>r. (filename r, delta r, after r)))
       (stats_for_change dest_first show_prev show_current line_changes filters is_test
          commit_sha (None, Some d))
     = Inr (if passes_filters filters d
            then [(str_remove_all stats_ext d,
                   series_mul (series_minus (to_nseries (dict_to_series (show_current d)))
                      (to_nseries (zero_series (dict_to_series (show_current d))))) 1,
                   dict_to_series (show_current d))]
            else [])
     \<and>
     map_sum id (map (\<lambda>r. (filename r, delta r, after r)))
       (stats_for_change dest_first show_prev show_current line_changes filters is_test
          commit_sha (Some s, None))
     = Inr (if passes_filters filters s
            then [(str_remove_all stats_ext s,
                   series_mul (series_minus (to_nseries (zero_series (dict_to_series (show_prev s))))
                      (to_nseries (dict_to_series (show_prev s)))) (- 1),
                   zero_series (dict_to_series (show_prev s)))]
            else [])
     \<and>
     map_sum id (map (\<lambda>r. (filename r, delta r, after r)))
       (stats_for_change dest_first show_prev show_current line_changes filters is_test
          commit_sha (Some s, Some d))
     = Inr ((if dest_first then rev else id)
             ((if passes_filters filters s
               then [(str_remove_all stats_ext s,
                      series_mul (series_minus (to_nseries (dict_to_series (show_current d)))
                         (to_nseries (dict_to_series (show_prev s)))) (- 1),
                      dict_to_series (show_current d))]
               else []) @
              (if passes_filters filters d
               then [(str_remove_all stats_ext d,
                      series_mul (series_minus (to_nseries (dict_to_series (show_current d)))
                         (to_nseries (dict_to_series (show_prev s)))) 1,
                      dict_to_series (show_current d))]
               else [])))
     \<and>
     map_sum id (map (\<lambda>r. (filename r, delta r, after r)))
       (stats_for_change dest_first show_prev show_current line_changes filters is_test
          commit_sha (Some d, Some d))
     = Inr (if passes_filters filters d
            then [(str_remove_all stats_ext d,
                   series_mul (series_minus (to_nseries (dict_to_series (show_current d)))
                      (to_nseries (dict_to_series (show_prev d)))) 1,
                   dict_to_series (show_current d))]
            else [])
     \<and>
     map fst (zero_series (dict_to_series (show_current d))) = map fst (dict_to_series (show_current d))
     \<and>
     (\<forall>v \<in> snd ` set (zero_series (dict_to_series (show_current d))). v = 0)
     \<and>
     (\<forall>k x y n. map_of (dict_to_series (show_current d)) k = Some x \<and>
                map_of (dict_to_series (show_prev s)) k = Some y \<longrightarrow>
        map_of (series_mul (series_minus (to_nseries (dict_to_series (show_current d)))
                              (to_nseries (dict_to_series (show_prev s)))) n) k
        = Some (Some ((x - y) * n)))"
  using assms
  by (simp add: stats_for_change_def load_side_def stats_rows_def List.map_filter_simps
        zero_series_keys zero_series_values Let_def case_prod_beta delta_value)

theorem delta_records_of_a_changed_pair_witness:
  "map_sum id (map (\<lambda>r. (filename r, delta r, after r)))
     (stats_for_change True (\<lambda>p. lloc 5) (\<lambda>p. lloc 7) [] (Some subtree_total_filter) no_match
        ''c1'' (Some ''SUBTREE_TOTAL_OLD.stats.yaml'', Some ''SUBTREE_TOTAL.stats.yaml''))
   = Inr [(''SUBTREE_TOTAL'', [((''stats'', ''lloc''), Some 2)], lloc 7),
          (''SUBTREE_TOTAL_OLD'', [((''stats'', ''lloc''), Some (- 2))], lloc 7)]
   \<and>
   map_sum id (map (\<lambda>r. (filename r, delta r, after r)))
     (stats_for_change True (\<lambda>p. lloc 5) (\<lambda>p. lloc 7) [] (Some subtree_total_filter) no_match
        ''c1'' (Some ''SUBTREE_TOTAL_OLD.stats.yaml'', None))
   = Inr [(''SUBTREE_TOTAL_OLD'', [((''stats'', ''lloc''), Some 5)], lloc 0)]"
proof -
  have e: "(if True then rev else id)
             ((if passes_filters (Some subtree_total_filter) ''SUBTREE_TOTAL_OLD.stats.yaml''
               then [(str_remove_all stats_ext ''SUBTREE_TOTAL_OLD.stats.yaml'',
                      series_mul (series_minus (to_nseries (dict_to_series (lloc 7)))
                         (to_nseries (dict_to_series (lloc 5)))) (- 1),
                      dict_to_series (lloc 7))]
               else []) @
              (if passes_filters (Some subtree_total_filter) ''SUBTREE_TOTAL.stats.yaml''
               then [(str_remove_all stats_ext ''SUBTREE_TOTAL.stats.yaml'',
                      series_mul (series_minus (to_nseries (dict_to_series (lloc 7)))
                         (to_nseries (dict_to_series (lloc 5)))) 1,
                      dict_to_series (lloc 7))]
               else []))
           = [(''SUBTREE_TOTAL'', [((''stats'', ''lloc''), Some 2)], lloc 7),
              (''SUBTREE_TOTAL_OLD'', [((''stats'', ''lloc''), Some (- 2))], lloc 7)]"
    by code_simp
  have f: "(if passes_filters (Some subtree_total_filter) ''SUBTREE_TOTAL_OLD.stats.yaml''
            then [(str_remove_all stats_ext ''SUBTREE_TOTAL_OLD.stats.yaml'',
                   series_mul (series_minus (to_nseries (zero_series (dict_to_series (lloc 5))))
                      (to_nseries (dict_to_series (lloc 5)))) (- 1),
                   zero_series (dict_to_series (lloc 5)))]
            else [])
           = [(''SUBTREE_TOTAL_OLD'', [((''stats'', ''lloc''), Some 5)], lloc 0)]"
    by code_simp
  have h: "''SUBTREE_TOTAL_OLD.stats.yaml'' \<noteq> []" "''SUBTREE_TOTAL.stats.yaml'' \<noteq> []"
    "''SUBTREE_TOTAL_OLD.stats.yaml'' \<noteq> ''SUBTREE_TOTAL.stats.yaml''"
    by simp_all
  note t = delta_records_of_a_changed_pair[OF h, of True "\<lambda>p. lloc 5" "\<lambda>p. lloc 7" "[]"
             "Some subtree_total_filter" no_match "''c1''"]
  note t2 = t[THEN conjunct2, THEN conjunct1]
  note t3 = t[THEN conjunct2, THEN conjunct2, THEN conjunct1]
  show ?thesis by (simp only: t2 t3 e f)
qed

section \<open>Files whose analysis fails\<close>



end
